theory Spec2Isabelle
  imports Main
begin

section \<open>The process context of \<^verbatim>\<open>src/main.c\<close>\<close>

text \<open>
  \<^verbatim>\<open>main.c\<close> owns six heap objects through the global \<^verbatim>\<open>g_tags\<close>: the event loop, the
  SIGINT watcher, the exit notifier, the parser and the two log path strings. A pointer
  field is an option: \<open>None\<close> is \<^verbatim>\<open>NULL\<close>. Everything else the file does is a call into
  libuv, libc or another module of the server. Each such call is recorded, in program
  order, as an event of the trace; the event of a call that takes one of the six
  pointers names the field the pointer is read from. The called code is taken not to
  write the fields of \<^verbatim>\<open>g_tags\<close> that \<^verbatim>\<open>main.c\<close> manages, and the callbacks libuv invokes
  while the loop runs are the functions of the section on callbacks, applied to the
  state at that moment.
\<close>

datatype slot = LOOP | SIGINT | EXIT_NOTIFIER | PARSER | LOGDIR | LOGFILE

datatype pointee = Allocated

datatype uv_run_mode = UV_RUN_DEFAULT | UV_RUN_ONCE

datatype lsp_msg_level = LSP_MSG_DEBUG | LSP_MSG_INFO

datatype io_type = TAG_LSP_IO_STDIO | TAG_LSP_IO_PIPE | TAG_LSP_IO_PORT

text \<open>The union \<^verbatim>\<open>data\<close> of \<^verbatim>\<open>tag_lsp_io_cfg_t\<close>: a file name, a port, or not written yet.\<close>

datatype io_data = IO_unset | IO_file string | IO_port int

datatype io_cb = CB_on_io_in

record io_cfg =
  cfg_type :: io_type
  cfg_data :: io_data
  cfg_cb :: io_cb

type_synonym cJSON = string

datatype event =
    E_signal_SIGPIPE_SIG_IGN
  | E_atexit
  | E_uv_setup_args
  | E_uv_disable_stdio_inheritance
  | E_lsp_malloc slot
  | E_uv_loop_init
  | E_uv_signal_init
  | E_uv_signal_start
  | E_uv_async_init
  | E_fprintf_stderr string
  | E_lsp_log_init
  | E_lsp_direct_log string
  | E_LSP_LOG lsp_msg_level string
  | E_tag_lsp_io_init io_cfg
  | E_lsp_msg_init
  | E_lsp_work_init
  | E_lsp_parser_create
  | E_uv_run uv_run_mode
  | E_uv_stop
  | E_uv_loop_close
  | E_lsp_free slot
  | E_free slot
  | E_lsp_strdup string
  | E_tag_lsp_msg_exit
  | E_tag_lsp_io_exit
  | E_lsp_work_exit
  | E_lsp_log_exit
  | E_uv_close slot
  | E_lsp_parser_destroy
  | E_tag_lsp_cleanup_workspace_folders
  | E_tag_lsp_cleanup_client_capabilities
  | E_lsp_msg_cancel_all_pending_request
  | E_lsp_work_queue_size
  | E_lsp_method_cleanup
  | E_uv_library_shutdown
  | E_lsp_handle_msg cJSON
  | E_lsp_parser_execute string int
  | E_lsp_exit

record state =
  loop :: "pointee option"
  sigint :: "pointee option"
  exit_notifier :: "pointee option"
  parser :: "pointee option"
  logdir :: "string option"
  logfile :: "string option"
  lsp_log_level :: "lsp_msg_level option"
  shutdown :: bool
  trace :: "event list"

text \<open>
  The answers of the calls whose result \<^verbatim>\<open>main.c\<close> branches on. An answer may depend on
  every call made so far, so it is a function of the trace before the call.
  \<^verbatim>\<open>TAGS_LSP_PROG_NAME\<close> is a macro defined outside \<^verbatim>\<open>main.c\<close>.
\<close>

record env =
  TAGS_LSP_PROG_NAME :: string
  lsp_work_queue_size :: "event list \<Rightarrow> nat"
  uv_run :: "event list \<Rightarrow> int"
  uv_loop_close :: "event list \<Rightarrow> int"
  uv_loop_init :: "event list \<Rightarrow> int"
  uv_signal_init :: "event list \<Rightarrow> int"

text \<open>
  How a function of \<^verbatim>\<open>main.c\<close> ends: it returns, it calls \<^verbatim>\<open>exit(status)\<close>, or it calls
  \<^verbatim>\<open>abort()\<close>.
\<close>

datatype 'a outcome = Return 'a state | Exit int state | Abort state

datatype process_end = Terminated int state | Aborted state

definition call :: "event \<Rightarrow> state \<Rightarrow> state" where
  "call ev s = s\<lparr>trace := trace s @ [ev]\<rparr>"

definition EXIT_SUCCESS :: int where
  "EXIT_SUCCESS = 0"

definition EXIT_FAILURE :: int where
  "EXIT_FAILURE = 1"

definition newline :: string where
  "newline = [CHR 0x0A]"

definition s_help :: "env \<Rightarrow> string" where
  "s_help e =
     TAGS_LSP_PROG_NAME e @ '' - Language server protocol wrapper for gtags.'' @ newline @
     ''Usage: '' @ TAGS_LSP_PROG_NAME e @ '' [OPTIONS]'' @ newline @
     newline @
     ''OPTIONS:'' @ newline @
     ''  --stdio'' @ newline @
     ''    Uses stdio as the communication channel. If no option specific, use this'' @ newline @
     ''    as default option.'' @ newline @
     newline @
     ''  --pipe=[FILE]'' @ newline @
     ''    Use pipes (Windows) or socket files (Linux, Mac) as the communication'' @ newline @
     ''    channel.'' @ newline @
     newline @
     ''  --port=[NUMBER]'' @ newline @
     ''    Uses a socket as the communication channel.'' @ newline @
     newline @
     ''  --logdir=[PATH]'' @ newline @
     ''    The directory to store log. The logfile will be like tags-lsp.pid.log'' @ newline @
     newline @
     ''  --logfile=[PATH]'' @ newline @
     ''    The log file path. If both `--logdir` and `--logfile` exist, `--logfile`'' @ newline @
     ''    win.'' @ newline @
     newline @
     ''  -h, --help'' @ newline @
     ''    Show this help and exit.'' @ newline"

definition s_welcome :: "env \<Rightarrow> string" where
  "s_welcome e =
     TAGS_LSP_PROG_NAME e @ '' is a language server that provides IDE-like features to editors.'' @ newline @
     newline @
     ''Homepage: https://github.com/0xfdfd/tags-lsp'' @ newline @
     newline @
     TAGS_LSP_PROG_NAME e @ '' accepts flags on the commandline. For more information, checkout'' @ newline @
     ''command line option `--help`.'' @ newline"

section \<open>Teardown\<close>

text \<open>
  \<^verbatim>\<open>_cleanup_loop\<close>: nothing when there is no loop; otherwise the loop is run until it
  has nothing left, then closed, and either call reporting non-zero aborts.
\<close>

definition cleanup_loop :: "env \<Rightarrow> state \<Rightarrow> unit outcome" where
  "cleanup_loop e s =
     (if loop s = None then Return () s
      else
        let r1 = uv_run e (trace s);
            s1 = call (E_uv_run UV_RUN_DEFAULT) s
        in if r1 \<noteq> 0 then Abort s1
           else
             let r2 = uv_loop_close e (trace s1);
                 s2 = call E_uv_loop_close s1
             in if r2 \<noteq> 0 then Abort s2
                else Return () ((call (E_lsp_free LOOP) s2)\<lparr>loop := None\<rparr>))"

definition at_exit_stage_1 :: "state \<Rightarrow> state" where
  "at_exit_stage_1 s =
     call (E_uv_close EXIT_NOTIFIER)
       (call (E_uv_close SIGINT)
         (call E_lsp_log_exit
           (call E_lsp_work_exit
             (call E_tag_lsp_io_exit
               (call E_tag_lsp_msg_exit s)))))"

definition at_exit_stage_2 :: "state \<Rightarrow> state" where
  "at_exit_stage_2 s =
     (let s1 = (if parser s \<noteq> None
                then (call E_lsp_parser_destroy s)\<lparr>parser := None\<rparr> else s);
          s2 = (if logdir s1 \<noteq> None
                then (call (E_lsp_free LOGDIR) s1)\<lparr>logdir := None\<rparr> else s1);
          s3 = (if logfile s2 \<noteq> None
                then (call (E_lsp_free LOGFILE) s2)\<lparr>logfile := None\<rparr> else s2);
          s4 = (if sigint s3 \<noteq> None
                then (call (E_lsp_free SIGINT) s3)\<lparr>sigint := None\<rparr> else s3);
          s5 = (if exit_notifier s4 \<noteq> None
                then (call (E_lsp_free EXIT_NOTIFIER) s4)\<lparr>exit_notifier := None\<rparr> else s4)
      in call E_tag_lsp_cleanup_client_capabilities
           (call E_tag_lsp_cleanup_workspace_folders s5))"

text \<open>
  \<^verbatim>\<open>_wait_for_pending_task\<close>: the loop has no bound in the source, so the model is a
  partial function and \<open>None\<close> is the run that never leaves the loop.
\<close>

partial_function (option) wait_for_pending_task :: "env \<Rightarrow> state \<Rightarrow> state option" where
  "wait_for_pending_task e s =
     (let queue_size = lsp_work_queue_size e (trace s);
          s1 = call E_lsp_work_queue_size s
      in if queue_size \<noteq> 0
         then wait_for_pending_task e (call (E_uv_run UV_RUN_ONCE) s1)
         else Some s1)"

declare wait_for_pending_task.simps [code]

definition at_exit :: "env \<Rightarrow> state \<Rightarrow> unit outcome option" where
  "at_exit e s =
     (let s1 = s\<lparr>shutdown := True\<rparr>;
          s2 = call (E_LSP_LOG LSP_MSG_DEBUG ''cleanup...'') s1;
          s3 = call E_lsp_msg_cancel_all_pending_request s2
      in case wait_for_pending_task e s3 of
           None \<Rightarrow> None
         | Some s4 \<Rightarrow>
             let s5 = call E_lsp_method_cleanup s4;
                 s6 = at_exit_stage_1 s5
             in (case cleanup_loop e s6 of
                   Return u s7 \<Rightarrow>
                     Some (Return () (call E_uv_library_shutdown (at_exit_stage_2 s7)))
                 | Exit st s7 \<Rightarrow> Some (Exit st s7)
                 | Abort s7 \<Rightarrow> Some (Abort s7)))"

section \<open>Callbacks\<close>

definition handle_request :: "cJSON \<Rightarrow> state \<Rightarrow> int \<times> state" where
  "handle_request msg s = (0, call (E_lsp_handle_msg msg) s)"

definition on_io_in :: "string \<Rightarrow> int \<Rightarrow> state \<Rightarrow> state" where
  "on_io_in data sz s =
     (if sz < 0 then call E_uv_stop s
      else call (E_lsp_parser_execute data sz) s)"

definition on_signal :: "state \<Rightarrow> state" where
  "on_signal s = call E_lsp_exit s"

definition on_exit_notify :: "state \<Rightarrow> state" where
  "on_exit_notify s = call E_uv_stop s"

section \<open>Command line\<close>

text \<open>
  \<^verbatim>\<open>sscanf(opt, "%d", &ret)\<close> of the C library: white space is skipped, one sign is
  optional, then at least one decimal digit must follow; what comes after the digits is
  left unread. \<open>None\<close> is a return value other than 1. The digits are converted by
  \<^verbatim>\<open>strtol\<close>, which keeps the value within the 64-bit \<^verbatim>\<open>long\<close>, and the result goes
  into the 32-bit \<^verbatim>\<open>int ret\<close>: a number that does not fit is kept by its low 32 bits,
  read in two's complement. C itself leaves that case open; this is what the C library
  of the platform does.
\<close>

definition LONG_MAX :: int where
  "LONG_MAX = 9223372036854775807"

definition strtol_range :: "int \<Rightarrow> int" where
  "strtol_range v = max (- LONG_MAX - 1) (min LONG_MAX v)"

definition int32 :: "int \<Rightarrow> int" where
  "int32 v = (v + 2147483648) mod 4294967296 - 2147483648"

definition isspace :: "char \<Rightarrow> bool" where
  "isspace c = ((of_char c :: nat) \<in> {9, 10, 11, 12, 13, 32})"

definition isdigit :: "char \<Rightarrow> bool" where
  "isdigit c = (48 \<le> (of_char c :: nat) \<and> (of_char c :: nat) \<le> 57)"

definition decimal :: "string \<Rightarrow> nat" where
  "decimal ds = foldl (\<lambda>n c. 10 * n + (of_char c - 48)) 0 ds"

definition sscanf_d :: "string \<Rightarrow> int option" where
  "sscanf_d str =
     (let s1 = dropWhile isspace str;
          neg = (s1 \<noteq> [] \<and> hd s1 = CHR ''-'');
          s2 = (if s1 \<noteq> [] \<and> (hd s1 = CHR ''-'' \<or> hd s1 = CHR ''+'') then tl s1 else s1);
          ds = takeWhile isdigit s2
      in if ds = [] then None
         else Some (int32 (strtol_range
                (if neg then - int (decimal ds) else int (decimal ds)))))"

text \<open>
  \<^verbatim>\<open>strncmp(arg, opt, strlen(opt)) == 0\<close> on strings without a NUL inside: \<open>opt\<close> is
  the beginning of \<open>arg\<close>.
\<close>

definition strncmp_eq :: "string \<Rightarrow> string \<Rightarrow> bool" where
  "strncmp_eq arg opt = (take (length opt) arg = opt)"

text \<open>
  The loop of \<^verbatim>\<open>_parser_command_line_options\<close> over the NULL-terminated \<^verbatim>\<open>argv\<close>, from
  index 0. The tests come in the order of the source.
\<close>

fun parser_command_line_options_loop ::
  "env \<Rightarrow> string list \<Rightarrow> io_cfg \<Rightarrow> state \<Rightarrow> io_cfg outcome" where
  "parser_command_line_options_loop e [] cfg s = Return cfg s"
| "parser_command_line_options_loop e (a # argv) cfg s =
     (if a = ''-h'' \<or> a = ''--help''
      then Exit EXIT_SUCCESS (call (E_fprintf_stderr (s_help e)) s)
      else if a = ''--stdio''
      then parser_command_line_options_loop e argv (cfg\<lparr>cfg_type := TAG_LSP_IO_STDIO\<rparr>) s
      else if strncmp_eq a ''--pipe=''
      then parser_command_line_options_loop e argv
             (cfg\<lparr>cfg_type := TAG_LSP_IO_PIPE,
                  cfg_data := IO_file (drop (length ''--pipe='') a)\<rparr>) s
      else if strncmp_eq a ''--port=''
      then (let opt = drop (length ''--port='') a
            in case sscanf_d opt of
                 None \<Rightarrow>
                   Exit EXIT_FAILURE
                     (call (E_fprintf_stderr
                        (''invalid value for `--port`: '' @ opt @ ''.'' @ newline)) s)
               | Some ret \<Rightarrow>
                   parser_command_line_options_loop e argv
                     (cfg\<lparr>cfg_type := TAG_LSP_IO_PORT, cfg_data := IO_port ret\<rparr>) s)
      else if strncmp_eq a ''--logdir=''
      then (let opt = drop (length ''--logdir='') a;
                s1 = (if logdir s \<noteq> None then call (E_free LOGDIR) s else s)
            in parser_command_line_options_loop e argv cfg
                 ((call (E_lsp_strdup opt) s1)\<lparr>logdir := Some opt\<rparr>))
      else if strncmp_eq a ''--logfile=''
      then (let opt = drop (length ''--logfile='') a;
                s1 = (if logfile s \<noteq> None then call (E_lsp_free LOGFILE) s else s)
            in parser_command_line_options_loop e argv cfg
                 ((call (E_lsp_strdup opt) s1)\<lparr>logfile := Some opt\<rparr>))
      else parser_command_line_options_loop e argv cfg s)"

definition parser_command_line_options ::
  "env \<Rightarrow> string list \<Rightarrow> state \<Rightarrow> io_cfg outcome" where
  "parser_command_line_options e argv s =
     parser_command_line_options_loop e argv
       \<lparr>cfg_type = TAG_LSP_IO_STDIO, cfg_data = IO_unset, cfg_cb = CB_on_io_in\<rparr> s"

section \<open>Start-up and \<^verbatim>\<open>main\<close>\<close>

definition signal_sigint_init :: "env \<Rightarrow> state \<Rightarrow> unit outcome" where
  "signal_sigint_init e s =
     (let s1 = (call (E_lsp_malloc SIGINT) s)\<lparr>sigint := Some Allocated\<rparr>;
          r = uv_signal_init e (trace s1);
          s2 = call E_uv_signal_init s1
      in if r \<noteq> 0
         then Abort (call (E_fprintf_stderr (''initialize sigint failed.'' @ newline)) s2)
         else Return () (call E_uv_signal_start s2))"

text \<open>
  The format of the last line is written with \<^verbatim>\<open>PRId64\<close>, taken here as \<^verbatim>\<open>ld\<close>; the two
  process ids it prints are not modelled.
\<close>

definition show_welecome :: "env \<Rightarrow> state \<Rightarrow> state" where
  "show_welecome e s =
     call (E_LSP_LOG LSP_MSG_INFO ''PID: %ld, PPID:%ld'')
       (call (E_lsp_direct_log newline)
         (call (E_lsp_direct_log (s_welcome e)) s))"

definition init_exit_notifier :: "state \<Rightarrow> state" where
  "init_exit_notifier s =
     call E_uv_async_init
       ((call (E_lsp_malloc EXIT_NOTIFIER) s)\<lparr>exit_notifier := Some Allocated\<rparr>)"

definition initialize :: "env \<Rightarrow> string list \<Rightarrow> state \<Rightarrow> string list outcome" where
  "initialize e argv s =
     (let s1 = call E_uv_disable_stdio_inheritance (call E_uv_setup_args s);
          s2 = s1\<lparr>lsp_log_level := Some LSP_MSG_INFO\<rparr>;
          s3 = (call (E_lsp_malloc LOOP) s2)\<lparr>loop := Some Allocated\<rparr>;
          r = uv_loop_init e (trace s3);
          s4 = call E_uv_loop_init s3
      in if r \<noteq> 0
         then Abort (call (E_fprintf_stderr
                       (''initialize main event loop failed.'' @ newline)) s4)
         else
           (case signal_sigint_init e s4 of
              Abort s5 \<Rightarrow> Abort s5
            | Exit st s5 \<Rightarrow> Exit st s5
            | Return u s5 \<Rightarrow>
                (case parser_command_line_options e argv (init_exit_notifier s5) of
                   Abort s6 \<Rightarrow> Abort s6
                 | Exit st s6 \<Rightarrow> Exit st s6
                 | Return io s6 \<Rightarrow>
                     let s7 = show_welecome e (call E_lsp_log_init s6);
                         s8 = call (E_tag_lsp_io_init io) s7;
                         s9 = call E_lsp_work_init (call E_lsp_msg_init s8)
                     in Return argv
                          ((call E_lsp_parser_create s9)\<lparr>parser := Some Allocated\<rparr>))))"

text \<open>The zero-initialised global \<^verbatim>\<open>g_tags\<close> of a fresh process.\<close>

definition g_tags0 :: state where
  "g_tags0 =
     \<lparr>loop = None, sigint = None, exit_notifier = None, parser = None,
      logdir = None, logfile = None, lsp_log_level = None, shutdown = False,
      trace = []\<rparr>"

text \<open>
  Leaving the process through \<^verbatim>\<open>exit\<close> or through the return of \<^verbatim>\<open>main\<close> runs the hook
  registered with \<^verbatim>\<open>atexit\<close>, which is \<^verbatim>\<open>_at_exit\<close>; \<^verbatim>\<open>abort\<close> runs no hook.
\<close>

definition exit_process :: "env \<Rightarrow> int \<Rightarrow> state \<Rightarrow> process_end option" where
  "exit_process e status s =
     (case at_exit e s of
        None \<Rightarrow> None
      | Some (Return u s') \<Rightarrow> Some (Terminated status s')
      | Some (Exit st s') \<Rightarrow> Some (Terminated st s')
      | Some (Abort s') \<Rightarrow> Some (Aborted s'))"

definition main :: "env \<Rightarrow> string list \<Rightarrow> process_end option" where
  "main e argv =
     (let s0 = call E_atexit (call E_signal_SIGPIPE_SIG_IGN g_tags0)
      in case initialize e argv s0 of
           Abort s1 \<Rightarrow> Some (Aborted s1)
         | Exit st s1 \<Rightarrow> exit_process e st s1
         | Return argv' s1 \<Rightarrow>
             let s2 = call (E_uv_run UV_RUN_DEFAULT) s1;
                 s3 = call (E_LSP_LOG LSP_MSG_INFO ''program about to exit.'') s2
             in exit_process e 0 s3)"

section \<open>The loop runs the callbacks\<close>

text \<open>
  \<^verbatim>\<open>uv_run\<close> is where libuv calls back into \<^verbatim>\<open>main.c\<close>: the signal watcher runs
  \<^verbatim>\<open>_on_signal\<close>, the exit notifier runs \<^verbatim>\<open>_on_exit_notify\<close>, the transport runs \<^verbatim>\<open>_on_io_in\<close>
  and the parser runs \<^verbatim>\<open>_handle_request\<close>. \<^verbatim>\<open>lsp_exit\<close>, which \<^verbatim>\<open>_on_signal\<close> calls, is defined
  outside \<^verbatim>\<open>main.c\<close> and is recorded as a call.
\<close>

datatype callback = ON_SIGNAL | ON_EXIT_NOTIFY | ON_IO_IN string int | HANDLE_REQUEST cJSON

definition dispatch :: "callback \<Rightarrow> state \<Rightarrow> state" where
  "dispatch cb s =
     (case cb of
        ON_SIGNAL \<Rightarrow> on_signal s
      | ON_EXIT_NOTIFY \<Rightarrow> on_exit_notify s
      | ON_IO_IN d sz \<Rightarrow> on_io_in d sz s
      | HANDLE_REQUEST msg \<Rightarrow> snd (handle_request msg s))"

text \<open>
  Which callbacks a run of the loop delivers, and in which order, is the choice of the
  environment: a schedule gives them from the calls made before the run.
\<close>

type_synonym schedule = "event list \<Rightarrow> callback list"

definition uv_run_cb :: "schedule \<Rightarrow> uv_run_mode \<Rightarrow> state \<Rightarrow> state" where
  "uv_run_cb c mode s = foldl (\<lambda>t cb. dispatch cb t) (call (E_uv_run mode) s) (c (trace s))"

text \<open>
  \<^verbatim>\<open>_cleanup_loop\<close>, \<^verbatim>\<open>_wait_for_pending_task\<close>, \<^verbatim>\<open>_at_exit\<close>, the exit hook and \<^verbatim>\<open>main\<close> once
  more, every \<^verbatim>\<open>uv_run\<close> of theirs delivering the callbacks of the schedule.
\<close>

definition cleanup_loop_cb :: "env \<Rightarrow> schedule \<Rightarrow> state \<Rightarrow> unit outcome" where
  "cleanup_loop_cb e c s =
     (if loop s = None then Return () s
      else
        let r1 = uv_run e (trace s);
            s1 = uv_run_cb c UV_RUN_DEFAULT s
        in if r1 \<noteq> 0 then Abort s1
           else
             let r2 = uv_loop_close e (trace s1);
                 s2 = call E_uv_loop_close s1
             in if r2 \<noteq> 0 then Abort s2
                else Return () ((call (E_lsp_free LOOP) s2)\<lparr>loop := None\<rparr>))"

partial_function (option) wait_for_pending_task_cb ::
  "env \<Rightarrow> schedule \<Rightarrow> state \<Rightarrow> state option" where
  "wait_for_pending_task_cb e c s =
     (let queue_size = lsp_work_queue_size e (trace s);
          s1 = call E_lsp_work_queue_size s
      in if queue_size \<noteq> 0
         then wait_for_pending_task_cb e c (uv_run_cb c UV_RUN_ONCE s1)
         else Some s1)"

declare wait_for_pending_task_cb.simps [code]

definition at_exit_cb :: "env \<Rightarrow> schedule \<Rightarrow> state \<Rightarrow> unit outcome option" where
  "at_exit_cb e c s =
     (let s1 = s\<lparr>shutdown := True\<rparr>;
          s2 = call (E_LSP_LOG LSP_MSG_DEBUG ''cleanup...'') s1;
          s3 = call E_lsp_msg_cancel_all_pending_request s2
      in case wait_for_pending_task_cb e c s3 of
           None \<Rightarrow> None
         | Some s4 \<Rightarrow>
             let s5 = call E_lsp_method_cleanup s4;
                 s6 = at_exit_stage_1 s5
             in (case cleanup_loop_cb e c s6 of
                   Return u s7 \<Rightarrow>
                     Some (Return () (call E_uv_library_shutdown (at_exit_stage_2 s7)))
                 | Exit st s7 \<Rightarrow> Some (Exit st s7)
                 | Abort s7 \<Rightarrow> Some (Abort s7)))"

definition exit_process_cb :: "env \<Rightarrow> schedule \<Rightarrow> int \<Rightarrow> state \<Rightarrow> process_end option" where
  "exit_process_cb e c status s =
     (case at_exit_cb e c s of
        None \<Rightarrow> None
      | Some (Return u s') \<Rightarrow> Some (Terminated status s')
      | Some (Exit st s') \<Rightarrow> Some (Terminated st s')
      | Some (Abort s') \<Rightarrow> Some (Aborted s'))"

definition main_cb :: "env \<Rightarrow> schedule \<Rightarrow> string list \<Rightarrow> process_end option" where
  "main_cb e c argv =
     (let s0 = call E_atexit (call E_signal_SIGPIPE_SIG_IGN g_tags0)
      in case initialize e argv s0 of
           Abort s1 \<Rightarrow> Some (Aborted s1)
         | Exit st s1 \<Rightarrow> exit_process_cb e c st s1
         | Return argv' s1 \<Rightarrow>
             let s2 = uv_run_cb c UV_RUN_DEFAULT s1;
                 s3 = call (E_LSP_LOG LSP_MSG_INFO ''program about to exit.'') s2
             in exit_process_cb e c 0 s3)"

section \<open>Notions used by the properties\<close>

text \<open>
  An environment in which every answer is zero: no work is queued, the loop has nothing
  left, and every libuv call succeeds.
\<close>

definition env_quiet :: env where
  "env_quiet =
     \<lparr>TAGS_LSP_PROG_NAME = ''tags-lsp'', lsp_work_queue_size = (\<lambda>h. 0),
      uv_run = (\<lambda>h. 0), uv_loop_close = (\<lambda>h. 0), uv_loop_init = (\<lambda>h. 0),
      uv_signal_init = (\<lambda>h. 0)\<rparr>"

text \<open>The arguments one of the tests of the option loop accepts.\<close>

definition recognized :: "string \<Rightarrow> bool" where
  "recognized a =
     (a = ''-h'' \<or> a = ''--help'' \<or> a = ''--stdio'' \<or> strncmp_eq a ''--pipe='' \<or>
      strncmp_eq a ''--port='' \<or> strncmp_eq a ''--logdir='' \<or> strncmp_eq a ''--logfile='')"

text \<open>
  A simulated work source: \<open>n\<close> units are outstanding when shutdown starts and each
  single iteration of the loop completes one of them.
\<close>

definition env_work :: "nat \<Rightarrow> env" where
  "env_work n =
     env_quiet\<lparr>lsp_work_queue_size := (\<lambda>h. n - count_list h (E_uv_run UV_RUN_ONCE))\<rparr>"

text \<open>The context of a server that is up: everything allocated, one log path set.\<close>

definition serving :: state where
  "serving =
     \<lparr>loop = Some Allocated, sigint = Some Allocated, exit_notifier = Some Allocated,
      parser = Some Allocated, logdir = Some ''/var/log'', logfile = None,
      lsp_log_level = Some LSP_MSG_INFO, shutdown = False, trace = []\<rparr>"

text \<open>What \<^verbatim>\<open>_at_exit\<close> leaves of \<open>serving\<close> when three units of work were outstanding.\<close>

definition drained_end :: state where
  "drained_end =
     \<lparr>loop = None, sigint = None, exit_notifier = None, parser = None,
      logdir = None, logfile = None, lsp_log_level = Some LSP_MSG_INFO, shutdown = True,
      trace =
        [E_LSP_LOG LSP_MSG_DEBUG ''cleanup...'', E_lsp_msg_cancel_all_pending_request,
         E_lsp_work_queue_size, E_uv_run UV_RUN_ONCE,
         E_lsp_work_queue_size, E_uv_run UV_RUN_ONCE,
         E_lsp_work_queue_size, E_uv_run UV_RUN_ONCE,
         E_lsp_work_queue_size,
         E_lsp_method_cleanup, E_tag_lsp_msg_exit, E_tag_lsp_io_exit, E_lsp_work_exit,
         E_lsp_log_exit, E_uv_close SIGINT, E_uv_close EXIT_NOTIFIER,
         E_uv_run UV_RUN_DEFAULT, E_uv_loop_close, E_lsp_free LOOP, E_lsp_parser_destroy,
         E_lsp_free LOGDIR, E_lsp_free SIGINT, E_lsp_free EXIT_NOTIFIER,
         E_tag_lsp_cleanup_workspace_folders, E_tag_lsp_cleanup_client_capabilities,
         E_uv_library_shutdown]\<rparr>"

definition outcome_state :: "'a outcome \<Rightarrow> state" where
  "outcome_state r = (case r of Return x s \<Rightarrow> s | Exit st s \<Rightarrow> s | Abort s \<Rightarrow> s)"

text \<open>The calls made between two states of one run.\<close>

definition new_events :: "state \<Rightarrow> state \<Rightarrow> event list" where
  "new_events s s' = drop (length (trace s)) (trace s')"

subsection \<open>The stages of \<^verbatim>\<open>_at_exit\<close>\<close>

text \<open>
  The trace when the wait for pending work begins, the calls of \<open>k\<close> rounds of the
  wait (a queue size read, then one iteration of the loop), and the calls from the end
  of the wait up to and including the two \<^verbatim>\<open>uv_close\<close> of \<^verbatim>\<open>_at_exit_stage_1\<close>.
\<close>

definition shutdown_start :: "state \<Rightarrow> event list" where
  "shutdown_start s =
     trace s @ [E_LSP_LOG LSP_MSG_DEBUG ''cleanup...'', E_lsp_msg_cancel_all_pending_request]"

definition drain_events :: "nat \<Rightarrow> event list" where
  "drain_events k = concat (replicate k [E_lsp_work_queue_size, E_uv_run UV_RUN_ONCE])"

definition closing_events :: "event list" where
  "closing_events =
     [E_lsp_method_cleanup, E_tag_lsp_msg_exit, E_tag_lsp_io_exit, E_lsp_work_exit,
      E_lsp_log_exit, E_uv_close SIGINT, E_uv_close EXIT_NOTIFIER]"

text \<open>
  Starting from the trace \<open>h\<close>, the work queue is read empty for the first time after
  \<open>k\<close> iterations of the loop.
\<close>

definition drained :: "env \<Rightarrow> event list \<Rightarrow> nat \<Rightarrow> bool" where
  "drained e h k =
     (lsp_work_queue_size e (h @ drain_events k) = 0 \<and>
      (\<forall>j\<in>{..<k}. lsp_work_queue_size e (h @ drain_events j) \<noteq> 0))"

text \<open>The state after \<^verbatim>\<open>_at_exit_stage_1\<close> and the rest of \<^verbatim>\<open>_at_exit\<close> from there.\<close>

definition closing_state :: "state \<Rightarrow> nat \<Rightarrow> state" where
  "closing_state s k =
     s\<lparr>shutdown := True,
       trace := shutdown_start s @ drain_events k @ [E_lsp_work_queue_size] @ closing_events\<rparr>"

definition finish :: "env \<Rightarrow> state \<Rightarrow> unit outcome" where
  "finish e s6 =
     (case cleanup_loop e s6 of
        Return u s7 \<Rightarrow> Return () (call E_uv_library_shutdown (at_exit_stage_2 s7))
      | Exit st s7 \<Rightarrow> Exit st s7
      | Abort s7 \<Rightarrow> Abort s7)"

text \<open>The calls of a \<^verbatim>\<open>_cleanup_loop\<close> that returns and of \<^verbatim>\<open>_at_exit_stage_2\<close>.\<close>

definition loop_events :: "state \<Rightarrow> event list" where
  "loop_events s =
     (if loop s = None then [] else [E_uv_run UV_RUN_DEFAULT, E_uv_loop_close, E_lsp_free LOOP])"

definition stage_2_events :: "state \<Rightarrow> event list" where
  "stage_2_events s =
     (if parser s = None then [] else [E_lsp_parser_destroy]) @
     (if logdir s = None then [] else [E_lsp_free LOGDIR]) @
     (if logfile s = None then [] else [E_lsp_free LOGFILE]) @
     (if sigint s = None then [] else [E_lsp_free SIGINT]) @
     (if exit_notifier s = None then [] else [E_lsp_free EXIT_NOTIFIER]) @
     [E_tag_lsp_cleanup_workspace_folders, E_tag_lsp_cleanup_client_capabilities]"

subsection \<open>Order and multiplicity of calls\<close>

text \<open>
  \<open>not_after a b xs\<close>: from the first \<open>b\<close> on, \<open>xs\<close> has no \<open>a\<close>.
  \<open>only_after a b xs\<close>: \<open>xs\<close> has no \<open>b\<close> before its first \<open>a\<close>.
\<close>

definition not_after :: "'a \<Rightarrow> 'a \<Rightarrow> 'a list \<Rightarrow> bool" where
  "not_after a b xs = (a \<notin> set (dropWhile (\<lambda>x. x \<noteq> b) xs))"

definition only_after :: "'a \<Rightarrow> 'a \<Rightarrow> 'a list \<Rightarrow> bool" where
  "only_after a b xs = (b \<notin> set (takeWhile (\<lambda>x. x \<noteq> a) xs))"

text \<open>The calls that close a handle or the loop, or give an owned object back.\<close>

fun is_release :: "event \<Rightarrow> bool" where
  "is_release (E_uv_close x) = True"
| "is_release (E_lsp_free x) = True"
| "is_release (E_free x) = True"
| "is_release E_uv_loop_close = True"
| "is_release E_lsp_parser_destroy = True"
| "is_release ev = False"

definition releases :: "event list \<Rightarrow> event list" where
  "releases evs = filter is_release evs"


text \<open>An environment whose loop still reports activity when it is run for the last time.\<close>

definition env_leak :: env where
  "env_leak = env_quiet\<lparr>uv_run := (\<lambda>h. 1)\<rparr>"

subsection \<open>Options\<close>

text \<open>The transport configuration of the specification.\<close>

datatype TransportConfig = Stdio | PipeOrSocketFile string | TcpPort int

text \<open>
  The configuration an \<^verbatim>\<open>io_cfg\<close> stands for: its type, with the member of the union
  that belongs to the type.
\<close>

definition transport_config :: "io_cfg \<Rightarrow> TransportConfig option" where
  "transport_config cfg =
     (case cfg_type cfg of
        TAG_LSP_IO_STDIO \<Rightarrow> Some Stdio
      | TAG_LSP_IO_PIPE \<Rightarrow>
          (case cfg_data cfg of IO_file f \<Rightarrow> Some (PipeOrSocketFile f) | _ \<Rightarrow> None)
      | TAG_LSP_IO_PORT \<Rightarrow>
          (case cfg_data cfg of IO_port p \<Rightarrow> Some (TcpPort p) | _ \<Rightarrow> None))"

text \<open>
  The transport selectors, in the words of the specification: \<^verbatim>\<open>--stdio\<close>,
  \<^verbatim>\<open>--pipe=<path>\<close> and \<^verbatim>\<open>--port=<number>\<close>, a number being a non-empty string of decimal
  digits and standing for the number it denotes. The configuration chosen is that of
  the last selector, and stdio when there is none.
\<close>

definition port_number :: "string \<Rightarrow> int option" where
  "port_number v = (if v \<noteq> [] \<and> list_all isdigit v then Some (int (decimal v)) else None)"

definition selector :: "string \<Rightarrow> TransportConfig option" where
  "selector a =
     (if a = ''--stdio'' then Some Stdio
      else if strncmp_eq a ''--pipe='' then Some (PipeOrSocketFile (drop 7 a))
      else if strncmp_eq a ''--port='' then map_option TcpPort (port_number (drop 7 a))
      else None)"

definition last_selector :: "string list \<Rightarrow> TransportConfig" where
  "last_selector argv =
     (case List.map_filter selector argv of [] \<Rightarrow> Stdio | t # ts \<Rightarrow> last (t # ts))"

text \<open>A port value that is a number and fits the \<^verbatim>\<open>int\<close> of the program.\<close>

definition INT_MAX :: int where
  "INT_MAX = 2147483647"

definition representable_port :: "string \<Rightarrow> bool" where
  "representable_port v = (case port_number v of None \<Rightarrow> False | Some n \<Rightarrow> n \<le> INT_MAX)"

text \<open>The arguments at which option parsing leaves the process.\<close>

definition stops_parsing :: "string \<Rightarrow> bool" where
  "stops_parsing a =
     (a = ''-h'' \<or> a = ''--help'' \<or> (strncmp_eq a ''--port='' \<and> sscanf_d (drop 7 a) = None))"

text \<open>
  The state in which \<^verbatim>\<open>main\<close> calls \<^verbatim>\<open>_initialize\<close>, the calls \<^verbatim>\<open>_initialize\<close> makes before it
  parses the options when libuv reports no error, and the state they lead to.
\<close>

definition process_start :: state where
  "process_start = call E_atexit (call E_signal_SIGPIPE_SIG_IGN g_tags0)"

definition startup_events :: "event list" where
  "startup_events =
     [E_uv_setup_args, E_uv_disable_stdio_inheritance, E_lsp_malloc LOOP, E_uv_loop_init,
      E_lsp_malloc SIGINT, E_uv_signal_init, E_uv_signal_start,
      E_lsp_malloc EXIT_NOTIFIER, E_uv_async_init]"

definition started :: "state \<Rightarrow> state" where
  "started s =
     s\<lparr>loop := Some Allocated, sigint := Some Allocated, exit_notifier := Some Allocated,
       lsp_log_level := Some LSP_MSG_INFO, trace := trace s @ startup_events\<rparr>"

text \<open>The calls the two log path options make.\<close>

fun is_log_option_event :: "event \<Rightarrow> bool" where
  "is_log_option_event (E_lsp_strdup x) = True"
| "is_log_option_event (E_free x) = (x = LOGDIR)"
| "is_log_option_event (E_lsp_free x) = (x = LOGFILE)"
| "is_log_option_event ev = False"

text \<open>The status of an outcome that is a call of \<^verbatim>\<open>exit\<close>.\<close>

definition exit_status :: "'a outcome \<Rightarrow> int option" where
  "exit_status r = (case r of Exit st s \<Rightarrow> Some st | _ \<Rightarrow> None)"

text \<open>Two states with the same loop, handles, parser and shutdown flag.\<close>

definition same_handles :: "state \<Rightarrow> state \<Rightarrow> bool" where
  "same_handles s s' =
     (loop s' = loop s \<and> sigint s' = sigint s \<and> exit_notifier s' = exit_notifier s \<and>
      parser s' = parser s \<and> shutdown s' = shutdown s)"

subsection \<open>Shutdown triggers\<close>

text \<open>
  Three schedules. The first delivers no callback at all. The second delivers the
  callback of the exit notifier once, in the run of the loop that \<^verbatim>\<open>main\<close> makes. The third
  delivers it there too, and then, in the first iteration of the loop that \<^verbatim>\<open>_at_exit\<close>
  makes while it waits for the work queue, the signal callback and the callback of the
  exit notifier again: a second shutdown trigger, after shutdown has begun.
\<close>

definition no_callbacks :: schedule where
  "no_callbacks h = []"






text \<open>\<open>s'\<close> is \<open>s\<close> with more calls in its trace, none of them a release.\<close>

definition adds_no_release :: "state \<Rightarrow> state \<Rightarrow> bool" where
  "adds_no_release s s' =
     (s' = s\<lparr>trace := trace s'\<rparr> \<and> take (length (trace s)) (trace s') = trace s \<and>
      releases (new_events s s') = [])"


section \<open>The frame decoder\<close>

text \<open>
  Modelled from the spec: the frame decoder. \<^verbatim>\<open>main.c\<close> only hands the bytes it reads to
  \<^verbatim>\<open>lsp_parser_execute\<close>; the parser module itself is not part of the sources at hand. The
  states are those of the specification, with \<open>Failed\<close> for the fatal protocol error
  after which no resynchronisation is attempted.
\<close>

datatype phase =
  AwaitingHeaderLine | AccumulatingHeaders | AwaitingBody nat | BodyComplete | Failed

text \<open>
  Modelled from the spec: the decoder state between two calls of \<open>feed\<close>: the bytes of
  the header line not yet terminated, the content length declared so far in the
  current header block, and the body bytes buffered so far.
\<close>

record decoder =
  phase :: phase
  line :: string
  declared :: "nat option"
  body :: string

definition CR :: char where
  "CR = CHR 0x0D"

definition LF :: char where
  "LF = CHR 0x0A"

definition decoder0 :: decoder where
  "decoder0 = \<lparr>phase = AwaitingHeaderLine, line = [], declared = None, body = []\<rparr>"

text \<open>
  Modelled from the spec: a header line is \<^verbatim>\<open>key: value\<close>; the key is what stands before
  the first colon and must not be empty, the value what follows the colon and the blanks
  after it.
\<close>

definition parse_header :: "string \<Rightarrow> (string \<times> string) option" where
  "parse_header l =
     (let k = takeWhile (\<lambda>c. c \<noteq> CHR '':'') l;
          rest = dropWhile (\<lambda>c. c \<noteq> CHR '':'') l
      in if k = [] \<or> rest = [] then None
         else Some (k, dropWhile (\<lambda>c. c = CHR '' '') (tl rest)))"

text \<open>Modelled from the spec: the length field is a non-empty string of decimal digits.\<close>

definition parse_length :: "string \<Rightarrow> nat option" where
  "parse_length v = (if v \<noteq> [] \<and> list_all isdigit v then Some (decimal v) else None)"

text \<open>
  Modelled from the spec: the end of a header line. A blank line ends the header block:
  without a declared length that is a fatal error, with length zero the (empty) message
  is complete at once, otherwise the body is awaited. Any other line must be a header,
  and a \<^verbatim>\<open>Content-Length\<close> header must carry a length; everything else is a fatal error.
\<close>

definition end_of_line :: "decoder \<Rightarrow> string \<Rightarrow> decoder \<times> string list" where
  "end_of_line d l =
     (if l = [] then
        (case declared d of
           None \<Rightarrow> (d\<lparr>phase := Failed\<rparr>, [])
         | Some n \<Rightarrow>
             if n = 0 then (d\<lparr>phase := BodyComplete, declared := None\<rparr>, [[]])
             else (d\<lparr>phase := AwaitingBody n\<rparr>, []))
      else
        (case parse_header l of
           None \<Rightarrow> (d\<lparr>phase := Failed\<rparr>, [])
         | Some (k, v) \<Rightarrow>
             if k = ''Content-Length'' then
               (case parse_length v of
                  None \<Rightarrow> (d\<lparr>phase := Failed\<rparr>, [])
                | Some n \<Rightarrow> (d\<lparr>phase := AccumulatingHeaders, declared := Some n\<rparr>, []))
             else (d\<lparr>phase := AccumulatingHeaders\<rparr>, [])))"

text \<open>
  Modelled from the spec: one byte of the header block. A line ends at a line feed that
  follows a carriage return; after a complete message the next byte starts a new frame.
\<close>

definition header_byte :: "decoder \<Rightarrow> char \<Rightarrow> decoder \<times> string list" where
  "header_byte d c =
     (let d0 = (if phase d = BodyComplete then d\<lparr>phase := AwaitingHeaderLine\<rparr> else d)
      in if c = LF \<and> line d0 \<noteq> [] \<and> last (line d0) = CR
         then end_of_line (d0\<lparr>line := []\<rparr>) (butlast (line d0))
         else (d0\<lparr>line := line d0 @ [c]\<rparr>, []))"

text \<open>
  Modelled from the spec: one byte of the body. The message is emitted as soon as the
  declared number of bytes is buffered.
\<close>

definition body_byte :: "nat \<Rightarrow> decoder \<Rightarrow> char \<Rightarrow> decoder \<times> string list" where
  "body_byte n d c =
     (let b = body d @ [c]
      in if n \<le> length b
         then (d\<lparr>phase := BodyComplete, declared := None, body := []\<rparr>, [b])
         else (d\<lparr>body := b\<rparr>, []))"

definition feed_byte :: "decoder \<Rightarrow> char \<Rightarrow> decoder \<times> string list" where
  "feed_byte d c =
     (case phase d of
        Failed \<Rightarrow> (d, [])
      | AwaitingBody n \<Rightarrow> body_byte n d c
      | _ \<Rightarrow> header_byte d c)"

text \<open>
  Modelled from the spec: \<open>feed\<close> takes a chunk of any size and returns the new state
  with the messages completed by the chunk, in arrival order; \<open>feed_chunks\<close> is a
  sequence of calls of \<open>feed\<close>.
\<close>

fun feed :: "decoder \<Rightarrow> string \<Rightarrow> decoder \<times> string list" where
  "feed d [] = (d, [])"
| "feed d (c # cs) =
     (case feed_byte d c of (d1, m1) \<Rightarrow>
        (case feed d1 cs of (d2, m2) \<Rightarrow> (d2, m1 @ m2)))"

fun feed_chunks :: "decoder \<Rightarrow> string list \<Rightarrow> decoder \<times> string list" where
  "feed_chunks d [] = (d, [])"
| "feed_chunks d (chunk # chunks) =
     (case feed d chunk of (d1, m1) \<Rightarrow>
        (case feed_chunks d1 chunks of (d2, m2) \<Rightarrow> (d2, m1 @ m2)))"

text \<open>
  Modelled from the spec: the wire framing. A frame is a block of \<^verbatim>\<open>key: value\<close> lines,
  a blank line, and the body. It is valid when no key or value holds a line break, no
  key is empty or holds a colon, every \<^verbatim>\<open>Content-Length\<close> header declares the length of
  the body, and there is such a header.
\<close>

definition header_line :: "string \<times> string \<Rightarrow> string" where
  "header_line h = fst h @ '': '' @ snd h @ [CR, LF]"

definition frame :: "(string \<times> string) list \<Rightarrow> string \<Rightarrow> string" where
  "frame hdrs b = concat (map header_line hdrs) @ [CR, LF] @ b"

definition valid_header :: "nat \<Rightarrow> string \<times> string \<Rightarrow> bool" where
  "valid_header n h =
     (fst h \<noteq> [] \<and> CHR '':'' \<notin> set (fst h) \<and> CR \<notin> set (fst h) \<and> LF \<notin> set (fst h) \<and>
      CR \<notin> set (snd h) \<and> LF \<notin> set (snd h) \<and>
      (fst h = ''Content-Length'' \<longrightarrow> parse_length (snd h) = Some n))"

definition valid_frame :: "(string \<times> string) list \<Rightarrow> string \<Rightarrow> bool" where
  "valid_frame hdrs b =
     (list_all (valid_header (length b)) hdrs \<and> ''Content-Length'' \<in> fst ` set hdrs)"

definition in_headers :: "decoder \<Rightarrow> bool" where
  "in_headers d = (phase d = AwaitingHeaderLine \<or> phase d = AccumulatingHeaders)"

section \<open>The teardown sequence\<close>

lemma drain_events_Suc: "drain_events (Suc k) = E_lsp_work_queue_size # E_uv_run UV_RUN_ONCE # drain_events k"
  by (simp add: drain_events_def)

lemma drain_events_0: "drain_events 0 = []"
  by (simp add: drain_events_def)

lemma wait_drained:
  "lsp_work_queue_size e (trace s @ drain_events k) = 0 \<Longrightarrow>
   (\<forall>j<k. lsp_work_queue_size e (trace s @ drain_events j) \<noteq> 0) \<Longrightarrow>
   wait_for_pending_task e s =
     Some (s\<lparr>trace := trace s @ drain_events k @ [E_lsp_work_queue_size]\<rparr>)"
proof (induction k arbitrary: s)
  case 0
  then show ?case
    by (subst wait_for_pending_task.simps) (simp add: drain_events_0 call_def)
next
  case (Suc k)
  let ?s' = "call (E_uv_run UV_RUN_ONCE) (call E_lsp_work_queue_size s)"
  have tr: "trace ?s' = trace s @ [E_lsp_work_queue_size, E_uv_run UV_RUN_ONCE]"
    by (simp add: call_def)
  have nz: "lsp_work_queue_size e (trace s) \<noteq> 0"
    using Suc.prems(2) [rule_format, of 0] by (simp add: drain_events_0)
  have z: "lsp_work_queue_size e (trace ?s' @ drain_events k) = 0"
    using Suc.prems(1) by (simp add: tr drain_events_Suc)
  have before: "\<forall>j<k. lsp_work_queue_size e (trace ?s' @ drain_events j) \<noteq> 0"
  proof (intro allI impI)
    fix j assume "j < k"
    then have "Suc j < Suc k" by simp
    from Suc.prems(2) [rule_format, OF this]
    show "lsp_work_queue_size e (trace ?s' @ drain_events j) \<noteq> 0"
      by (simp add: tr drain_events_Suc)
  qed
  have "wait_for_pending_task e s = wait_for_pending_task e ?s'"
    using nz by (subst wait_for_pending_task.simps) (simp add: Let_def)
  also have "\<dots> = Some (?s'\<lparr>trace := trace ?s' @ drain_events k @ [E_lsp_work_queue_size]\<rparr>)"
    by (rule Suc.IH [OF z before])
  also have "\<dots> = Some (s\<lparr>trace := trace s @ drain_events (Suc k) @ [E_lsp_work_queue_size]\<rparr>)"
    by (simp add: call_def drain_events_Suc)
  finally show ?case .
qed

lemma wait_returns_drained:
  "wait_for_pending_task e s = Some s' \<Longrightarrow>
   \<exists>k. lsp_work_queue_size e (trace s @ drain_events k) = 0 \<and>
       (\<forall>j<k. lsp_work_queue_size e (trace s @ drain_events j) \<noteq> 0) \<and>
       s' = s\<lparr>trace := trace s @ drain_events k @ [E_lsp_work_queue_size]\<rparr>"
proof (induction rule: wait_for_pending_task.raw_induct [rotated 1, consumes 1, case_names step])
  case (step wait e s s')
  note 1 = step
  show ?case
  proof (cases "lsp_work_queue_size e (trace s) = 0")
    case True
    with 1(2) have "s' = call E_lsp_work_queue_size s" by (simp add: Let_def)
    with True show ?thesis
      by (intro exI [of _ 0]) (simp add: drain_events_0 call_def)
  next
    case False
    let ?s1 = "call (E_uv_run UV_RUN_ONCE) (call E_lsp_work_queue_size s)"
    have tr: "trace ?s1 = trace s @ [E_lsp_work_queue_size, E_uv_run UV_RUN_ONCE]"
      by (simp add: call_def)
    from False 1(2) have "wait e ?s1 = Some s'" by (simp add: Let_def)
    from 1(1) [OF this] obtain k where
      k: "lsp_work_queue_size e (trace ?s1 @ drain_events k) = 0"
         "\<forall>j<k. lsp_work_queue_size e (trace ?s1 @ drain_events j) \<noteq> 0"
         "s' = ?s1\<lparr>trace := trace ?s1 @ drain_events k @ [E_lsp_work_queue_size]\<rparr>"
      by blast
    have "\<forall>j<Suc k. lsp_work_queue_size e (trace s @ drain_events j) \<noteq> 0"
    proof (intro allI impI)
      fix j assume j: "j < Suc k"
      show "lsp_work_queue_size e (trace s @ drain_events j) \<noteq> 0"
      proof (cases j)
        case 0
        with False show ?thesis by (simp add: drain_events_0)
      next
        case (Suc i)
        with j have "i < k" by simp
        with k(2) have "lsp_work_queue_size e (trace ?s1 @ drain_events i) \<noteq> 0" by blast
        then show ?thesis by (simp add: Suc tr drain_events_Suc)
      qed
    qed
    moreover have "lsp_work_queue_size e (trace s @ drain_events (Suc k)) = 0"
      using k(1) by (simp add: tr drain_events_Suc)
    moreover have "s' = s\<lparr>trace := trace s @ drain_events (Suc k) @ [E_lsp_work_queue_size]\<rparr>"
      using k(3) by (simp add: call_def drain_events_Suc)
    ultimately show ?thesis by blast
  qed
qed

lemma at_exit_drained:
  assumes "drained e (shutdown_start s) k"
  shows "at_exit e s = Some (finish e (closing_state s k))"
proof -
  let ?s3 = "call E_lsp_msg_cancel_all_pending_request
               (call (E_LSP_LOG LSP_MSG_DEBUG ''cleanup...'') (s\<lparr>shutdown := True\<rparr>))"
  have tr: "trace ?s3 = shutdown_start s" by (simp add: call_def shutdown_start_def)
  from assms have
    "wait_for_pending_task e ?s3 =
       Some (?s3\<lparr>trace := trace ?s3 @ drain_events k @ [E_lsp_work_queue_size]\<rparr>)"
    by (intro wait_drained) (simp_all add: drained_def tr)
  then show ?thesis
    by (simp add: at_exit_def finish_def closing_state_def at_exit_stage_1_def call_def
        closing_events_def shutdown_start_def Let_def split: outcome.split)
qed

lemma at_exit_returns:
  assumes "at_exit e s = Some r"
  shows "\<exists>k. drained e (shutdown_start s) k \<and> r = finish e (closing_state s k)"
proof -
  let ?s3 = "call E_lsp_msg_cancel_all_pending_request
               (call (E_LSP_LOG LSP_MSG_DEBUG ''cleanup...'') (s\<lparr>shutdown := True\<rparr>))"
  have tr: "trace ?s3 = shutdown_start s" by (simp add: call_def shutdown_start_def)
  have "wait_for_pending_task e ?s3 \<noteq> None"
  proof
    assume "wait_for_pending_task e ?s3 = None"
    then have "at_exit e s = None" by (simp add: at_exit_def Let_def)
    with assms show False by simp
  qed
  then obtain s4 where w: "wait_for_pending_task e ?s3 = Some s4" by blast
  from wait_returns_drained [OF w] obtain k where
    k: "lsp_work_queue_size e (trace ?s3 @ drain_events k) = 0"
       "\<forall>j<k. lsp_work_queue_size e (trace ?s3 @ drain_events j) \<noteq> 0"
    by blast
  then have d: "drained e (shutdown_start s) k" by (simp add: drained_def tr)
  from at_exit_drained [OF d] assms have "r = finish e (closing_state s k)" by simp
  with d show ?thesis by blast
qed

lemma at_exit_terminates_iff:
  "(\<exists>r. at_exit e s = Some r) \<longleftrightarrow>
   (\<exists>k. lsp_work_queue_size e (shutdown_start s @ drain_events k) = 0)"
proof
  assume "\<exists>r. at_exit e s = Some r"
  then obtain r where "at_exit e s = Some r" ..
  from at_exit_returns [OF this] obtain k where "drained e (shutdown_start s) k" by blast
  then have "lsp_work_queue_size e (shutdown_start s @ drain_events k) = 0"
    by (simp add: drained_def)
  then show "\<exists>k. lsp_work_queue_size e (shutdown_start s @ drain_events k) = 0" ..
next
  define Z where "Z k \<longleftrightarrow> lsp_work_queue_size e (shutdown_start s @ drain_events k) = 0" for k
  define L where "L = (LEAST k. Z k)"
  assume "\<exists>k. lsp_work_queue_size e (shutdown_start s @ drain_events k) = 0"
  then obtain k where "Z k" unfolding Z_def ..
  then have z: "Z L" unfolding L_def by (rule LeastI)
  have nl: "\<not> Z j" if "j < L" for j
    using that unfolding L_def by (rule not_less_Least)
  have "drained e (shutdown_start s) L"
    using z nl unfolding drained_def Z_def by simp
  from at_exit_drained [OF this] show "\<exists>r. at_exit e s = Some r" by blast
qed

lemma at_exit_stage_2_eq:
  "at_exit_stage_2 s =
     s\<lparr>sigint := None, exit_notifier := None, parser := None, logdir := None, logfile := None,
       trace := trace s @ stage_2_events s\<rparr>"
  by (simp add: at_exit_stage_2_def stage_2_events_def call_def Let_def)

lemma cleanup_loop_Return:
  "cleanup_loop e s = Return u s' \<Longrightarrow>
   s' = s\<lparr>loop := None, trace := trace s @ loop_events s\<rparr>"
  by (auto simp: cleanup_loop_def loop_events_def call_def Let_def split: if_splits)

lemma cleanup_loop_Abort:
  "cleanup_loop e s = Abort s' \<Longrightarrow>
   s' = s\<lparr>trace := trace s @ [E_uv_run UV_RUN_DEFAULT]\<rparr> \<or>
   s' = s\<lparr>trace := trace s @ [E_uv_run UV_RUN_DEFAULT, E_uv_loop_close]\<rparr>"
  by (auto simp: cleanup_loop_def call_def Let_def split: if_splits)

lemma cleanup_loop_not_Exit: "cleanup_loop e s \<noteq> Exit st s'"
  by (simp add: cleanup_loop_def Let_def)

lemma finish_Return:
  assumes "finish e s = Return u s'"
  shows "s' = s\<lparr>loop := None, sigint := None, exit_notifier := None, parser := None,
               logdir := None, logfile := None,
               trace := trace s @ loop_events s @ stage_2_events s @ [E_uv_library_shutdown]\<rparr>"
proof -
  from assms obtain v s7 where c: "cleanup_loop e s = Return v s7"
    and s': "s' = call E_uv_library_shutdown (at_exit_stage_2 s7)"
    by (auto simp: finish_def split: outcome.splits)
  from cleanup_loop_Return [OF c] s' show ?thesis
    by (simp add: at_exit_stage_2_eq call_def stage_2_events_def)
qed

lemma set_drain_events: "set (drain_events k) \<subseteq> {E_lsp_work_queue_size, E_uv_run UV_RUN_ONCE}"
  by (induction k) (auto simp: drain_events_0 drain_events_Suc)

lemma dropWhile_drain:
  "P E_lsp_work_queue_size \<Longrightarrow> P (E_uv_run UV_RUN_ONCE) \<Longrightarrow>
   dropWhile P (drain_events k @ ys) = dropWhile P ys"
  by (induction k) (simp_all add: drain_events_0 drain_events_Suc)

lemma takeWhile_drain:
  "P E_lsp_work_queue_size \<Longrightarrow> P (E_uv_run UV_RUN_ONCE) \<Longrightarrow>
   takeWhile P (drain_events k @ ys) = drain_events k @ takeWhile P ys"
  by (induction k) (simp_all add: drain_events_0 drain_events_Suc)

lemma filter_drain:
  "\<not> P E_lsp_work_queue_size \<Longrightarrow> \<not> P (E_uv_run UV_RUN_ONCE) \<Longrightarrow>
   filter P (drain_events k) = []"
  by (induction k) (simp_all add: drain_events_0 drain_events_Suc)

lemma at_exit_Return_events:
  assumes "at_exit e s = Some (Return u s')"
  shows "\<exists>k. drained e (shutdown_start s) k \<and>
     new_events s s' =
       [E_LSP_LOG LSP_MSG_DEBUG ''cleanup...'', E_lsp_msg_cancel_all_pending_request] @
       drain_events k @ [E_lsp_work_queue_size] @ closing_events @
       loop_events s @ stage_2_events s @ [E_uv_library_shutdown]"
proof -
  from at_exit_returns [OF assms] obtain k where d: "drained e (shutdown_start s) k"
    and r: "finish e (closing_state s k) = Return u s'" by auto
  from finish_Return [OF r]
  have "trace s' = trace (closing_state s k) @ loop_events (closing_state s k) @
          stage_2_events (closing_state s k) @ [E_uv_library_shutdown]"
    by simp
  moreover have "loop_events (closing_state s k) = loop_events s"
    by (simp add: loop_events_def closing_state_def)
  moreover have "stage_2_events (closing_state s k) = stage_2_events s"
    by (simp add: stage_2_events_def closing_state_def)
  ultimately have "new_events s s' =
       [E_LSP_LOG LSP_MSG_DEBUG ''cleanup...'', E_lsp_msg_cancel_all_pending_request] @
       drain_events k @ [E_lsp_work_queue_size] @ closing_events @
       loop_events s @ stage_2_events s @ [E_uv_library_shutdown]"
    by (simp add: new_events_def closing_state_def shutdown_start_def)
  with d show ?thesis by blast
qed

lemma at_exit_Abort_events:
  assumes "at_exit e s = Some (Abort s')"
  shows "\<exists>k tl. drained e (shutdown_start s) k \<and>
     (tl = [E_uv_run UV_RUN_DEFAULT] \<or> tl = [E_uv_run UV_RUN_DEFAULT, E_uv_loop_close]) \<and>
     new_events s s' =
       [E_LSP_LOG LSP_MSG_DEBUG ''cleanup...'', E_lsp_msg_cancel_all_pending_request] @
       drain_events k @ [E_lsp_work_queue_size] @ closing_events @ tl"
proof -
  from at_exit_returns [OF assms] obtain k where d: "drained e (shutdown_start s) k"
    and r: "finish e (closing_state s k) = Abort s'" by auto
  from r have c: "cleanup_loop e (closing_state s k) = Abort s'"
    by (auto simp: finish_def split: outcome.splits)
  from cleanup_loop_Abort [OF c]
  have "new_events s s' = [E_LSP_LOG LSP_MSG_DEBUG ''cleanup...'', E_lsp_msg_cancel_all_pending_request] @
       drain_events k @ [E_lsp_work_queue_size] @ closing_events @ [E_uv_run UV_RUN_DEFAULT] \<or>
     new_events s s' = [E_LSP_LOG LSP_MSG_DEBUG ''cleanup...'', E_lsp_msg_cancel_all_pending_request] @
       drain_events k @ [E_lsp_work_queue_size] @ closing_events @ [E_uv_run UV_RUN_DEFAULT, E_uv_loop_close]"
    by (auto simp: new_events_def closing_state_def shutdown_start_def)
  with d show ?thesis by blast
qed

lemma at_exit_not_Exit: "at_exit e s \<noteq> Some (Exit st s')"
proof
  assume a: "at_exit e s = Some (Exit st s')"
  from at_exit_returns [OF a] obtain k where "finish e (closing_state s k) = Exit st s'" by auto
  then show False
    by (auto simp: finish_def cleanup_loop_not_Exit split: outcome.splits)
qed

lemma at_exit_sets_shutdown:
  assumes "at_exit e s = Some r"
  shows "shutdown (outcome_state r)"
proof -
  from at_exit_returns [OF assms] obtain k where r: "r = finish e (closing_state s k)" by auto
  show ?thesis
  proof (cases "cleanup_loop e (closing_state s k)")
    case (Return u s7)
    with r have "r = Return () (call E_uv_library_shutdown (at_exit_stage_2 s7))"
      by (simp add: finish_def)
    with cleanup_loop_Return [OF Return] show ?thesis
      by (simp add: outcome_state_def call_def at_exit_stage_2_eq closing_state_def)
  next
    case (Exit st s7)
    then show ?thesis by (simp add: cleanup_loop_not_Exit)
  next
    case (Abort s7)
    with r have "r = Abort s7" by (simp add: finish_def)
    with cleanup_loop_Abort [OF Abort] show ?thesis
      by (auto simp: outcome_state_def closing_state_def)
  qed
qed

lemma at_exit_trace_prefix:
  assumes "at_exit e s = Some r"
  shows "\<exists>k rest. drained e (shutdown_start s) k \<and>
     trace (outcome_state r) =
       shutdown_start s @ drain_events k @ [E_lsp_work_queue_size] @ closing_events @ rest"
proof -
  from at_exit_returns [OF assms] obtain k where d: "drained e (shutdown_start s) k"
    and r: "r = finish e (closing_state s k)" by auto
  have t: "trace (closing_state s k) =
     shutdown_start s @ drain_events k @ [E_lsp_work_queue_size] @ closing_events"
    by (simp add: closing_state_def)
  have "\<exists>rest. trace (outcome_state r) = trace (closing_state s k) @ rest"
  proof (cases "cleanup_loop e (closing_state s k)")
    case (Return u s7)
    with r have "r = Return () (call E_uv_library_shutdown (at_exit_stage_2 s7))"
      by (simp add: finish_def)
    with cleanup_loop_Return [OF Return] show ?thesis
      by (simp add: outcome_state_def call_def at_exit_stage_2_eq)
  next
    case (Exit st s7)
    then show ?thesis by (simp add: cleanup_loop_not_Exit)
  next
    case (Abort s7)
    with r have "r = Abort s7" by (simp add: finish_def)
    with cleanup_loop_Abort [OF Abort] show ?thesis
      by (auto simp: outcome_state_def)
  qed
  with d t show ?thesis by auto
qed


lemma releases_drain: "releases (drain_events k) = []"
  by (simp add: releases_def filter_drain)

lemma at_exit_releases_distinct:
  assumes "at_exit e s = Some r"
  shows "distinct (releases (new_events s (outcome_state r)))"
proof (cases r)
  case (Return u s')
  with at_exit_Return_events [of e s u s'] assms obtain k where
    "new_events s s' =
       [E_LSP_LOG LSP_MSG_DEBUG ''cleanup...'', E_lsp_msg_cancel_all_pending_request] @
       drain_events k @ [E_lsp_work_queue_size] @ closing_events @
       loop_events s @ stage_2_events s @ [E_uv_library_shutdown]"
    by blast
  then have "releases (new_events s s') =
     [E_uv_close SIGINT, E_uv_close EXIT_NOTIFIER] @ releases (loop_events s) @
     releases (stage_2_events s)"
    by (simp add: releases_def filter_drain closing_events_def)
  moreover have "distinct ([E_uv_close SIGINT, E_uv_close EXIT_NOTIFIER] @
     releases (loop_events s) @ releases (stage_2_events s))"
    by (simp add: releases_def loop_events_def stage_2_events_def)
  ultimately show ?thesis using Return by (simp add: outcome_state_def)
next
  case (Exit st s')
  with assms show ?thesis by (simp add: at_exit_not_Exit)
next
  case (Abort s')
  with at_exit_Abort_events [of e s s'] assms obtain k tl where
    tl: "tl = [E_uv_run UV_RUN_DEFAULT] \<or> tl = [E_uv_run UV_RUN_DEFAULT, E_uv_loop_close]"
    and "new_events s s' =
       [E_LSP_LOG LSP_MSG_DEBUG ''cleanup...'', E_lsp_msg_cancel_all_pending_request] @
       drain_events k @ [E_lsp_work_queue_size] @ closing_events @ tl"
    by blast
  then have "releases (new_events s s') =
     [E_uv_close SIGINT, E_uv_close EXIT_NOTIFIER] @ releases tl"
    by (simp add: releases_def filter_drain closing_events_def)
  with tl have "distinct (releases (new_events s s'))"
    by (auto simp: releases_def)
  then show ?thesis using Abort by (simp add: outcome_state_def)
qed

lemma stage_2_again:
  "releases (new_events (at_exit_stage_2 s) (at_exit_stage_2 (at_exit_stage_2 s))) = []"
  by (simp add: at_exit_stage_2_eq new_events_def stage_2_events_def releases_def)

lemma cleanup_loop_again:
  assumes "cleanup_loop e s = Return u s'"
  shows "cleanup_loop e' s' = Return () s'"
proof -
  from cleanup_loop_Return [OF assms] have "loop s' = None" by simp
  then show ?thesis by (simp add: cleanup_loop_def)
qed

section \<open>Properties of the teardown\<close>

text \<open>
  C1. \<^verbatim>\<open>_at_exit\<close> comes back exactly when the work queue is read empty after some
  number of loop iterations. When it comes back, the trace is: the trace at shutdown
  start, then \<open>k\<close> rounds each made of a queue size read and one \<^verbatim>\<open>UV_RUN_ONCE\<close>
  iteration, where every read before the last reported a non-empty queue and the last
  one reported zero, and only then \<^verbatim>\<open>lsp_method_cleanup\<close>, the module exits and the two
  \<^verbatim>\<open>uv_close\<close> calls, followed by the rest of the teardown. So no handle is closed
  while work is outstanding.
\<close>

theorem draining_precedes_handle_closing:
  "((\<exists>r. at_exit e s = Some r) \<longleftrightarrow>
      (\<exists>k. lsp_work_queue_size e (shutdown_start s @ drain_events k) = 0)) \<and>
   (at_exit e s = Some r \<longrightarrow>
      (\<exists>k rest. drained e (shutdown_start s) k \<and>
         trace (outcome_state r) =
           shutdown_start s @ drain_events k @ [E_lsp_work_queue_size] @ closing_events @ rest))"
  using at_exit_terminates_iff [of e s] at_exit_trace_prefix [of e s r] by blast

theorem draining_precedes_handle_closing_witness:
  "at_exit (env_work 3) serving = Some (Return () drained_end) \<and>
   (\<exists>k. lsp_work_queue_size (env_work 3) (shutdown_start serving @ drain_events k) = 0) \<and>
   (\<exists>k rest. drained (env_work 3) (shutdown_start serving) k \<and>
      trace drained_end =
        shutdown_start serving @ drain_events k @ [E_lsp_work_queue_size] @ closing_events @ rest)"
proof -
  have ev: "at_exit (env_work 3) serving = Some (Return () drained_end)"
    by code_simp
  with draining_precedes_handle_closing [of "env_work 3" serving "Return () drained_end"]
  show ?thesis by (simp add: outcome_state_def)
qed

text \<open>
  C7. In the calls of an \<^verbatim>\<open>_at_exit\<close> that returns, \<^verbatim>\<open>lsp_parser_destroy\<close> never comes
  after the release of a log path string, and, when there is a loop, the storage of the
  SIGINT watcher and of the exit notifier is released only after \<^verbatim>\<open>uv_loop_close\<close> and
  after the release of the loop itself. Each of these releases happens exactly when
  its pointer is set.
\<close>

theorem release_in_dependency_order:
  assumes "at_exit e s = Some (Return u s')"
  shows "not_after E_lsp_parser_destroy (E_lsp_free LOGDIR) (new_events s s') \<and>
         not_after E_lsp_parser_destroy (E_lsp_free LOGFILE) (new_events s s') \<and>
         (loop s \<noteq> None \<longrightarrow>
            only_after E_uv_loop_close (E_lsp_free SIGINT) (new_events s s') \<and>
            only_after (E_lsp_free LOOP) (E_lsp_free SIGINT) (new_events s s') \<and>
            only_after E_uv_loop_close (E_lsp_free EXIT_NOTIFIER) (new_events s s') \<and>
            only_after (E_lsp_free LOOP) (E_lsp_free EXIT_NOTIFIER) (new_events s s')) \<and>
         (E_lsp_parser_destroy \<in> set (new_events s s') \<longleftrightarrow> parser s \<noteq> None) \<and>
         (E_lsp_free LOGDIR \<in> set (new_events s s') \<longleftrightarrow> logdir s \<noteq> None) \<and>
         (E_lsp_free LOGFILE \<in> set (new_events s s') \<longleftrightarrow> logfile s \<noteq> None) \<and>
         (E_lsp_free SIGINT \<in> set (new_events s s') \<longleftrightarrow> sigint s \<noteq> None) \<and>
         (E_lsp_free EXIT_NOTIFIER \<in> set (new_events s s') \<longleftrightarrow> exit_notifier s \<noteq> None) \<and>
         (E_uv_loop_close \<in> set (new_events s s') \<longleftrightarrow> loop s \<noteq> None)"
proof -
  from at_exit_Return_events [OF assms] obtain k where
    ev: "new_events s s' =
       [E_LSP_LOG LSP_MSG_DEBUG ''cleanup...'', E_lsp_msg_cancel_all_pending_request] @
       drain_events k @ [E_lsp_work_queue_size] @ closing_events @
       loop_events s @ stage_2_events s @ [E_uv_library_shutdown]"
    by blast
  have d: "set (drain_events k) \<subseteq> {E_lsp_work_queue_size, E_uv_run UV_RUN_ONCE}"
    by (rule set_drain_events)
  have 1: "not_after E_lsp_parser_destroy (E_lsp_free LOGDIR) (new_events s s')"
    unfolding ev not_after_def
    by (simp add: dropWhile_drain closing_events_def loop_events_def stage_2_events_def)
  have 2: "not_after E_lsp_parser_destroy (E_lsp_free LOGFILE) (new_events s s')"
    unfolding ev not_after_def
    by (simp add: dropWhile_drain closing_events_def loop_events_def stage_2_events_def)
  have 3: "only_after E_uv_loop_close (E_lsp_free h) (new_events s s')"
    if "loop s \<noteq> None" for h
    using that d unfolding ev only_after_def
    by (auto simp: takeWhile_drain closing_events_def loop_events_def stage_2_events_def)
  have 4: "only_after (E_lsp_free LOOP) (E_lsp_free h) (new_events s s')"
    if "loop s \<noteq> None" "h \<noteq> LOOP" for h
    using that d unfolding ev only_after_def
    by (auto simp: takeWhile_drain closing_events_def loop_events_def stage_2_events_def)
  have 5: "E_lsp_parser_destroy \<in> set (new_events s s') \<longleftrightarrow> parser s \<noteq> None"
    using d unfolding ev
    by (auto simp: closing_events_def loop_events_def stage_2_events_def)
  have 6: "E_lsp_free LOGDIR \<in> set (new_events s s') \<longleftrightarrow> logdir s \<noteq> None"
    using d unfolding ev
    by (auto simp: closing_events_def loop_events_def stage_2_events_def)
  have 7: "E_lsp_free LOGFILE \<in> set (new_events s s') \<longleftrightarrow> logfile s \<noteq> None"
    using d unfolding ev
    by (auto simp: closing_events_def loop_events_def stage_2_events_def)
  have 8: "E_lsp_free SIGINT \<in> set (new_events s s') \<longleftrightarrow> sigint s \<noteq> None"
    using d unfolding ev
    by (auto simp: closing_events_def loop_events_def stage_2_events_def)
  have 9: "E_lsp_free EXIT_NOTIFIER \<in> set (new_events s s') \<longleftrightarrow> exit_notifier s \<noteq> None"
    using d unfolding ev
    by (auto simp: closing_events_def loop_events_def stage_2_events_def)
  have 10: "E_uv_loop_close \<in> set (new_events s s') \<longleftrightarrow> loop s \<noteq> None"
    using d unfolding ev
    by (auto simp: closing_events_def loop_events_def stage_2_events_def)
  from 1 2 3 4 5 6 7 8 9 10 show ?thesis by simp
qed

theorem release_in_dependency_order_witness:
  "at_exit (env_work 3) serving = Some (Return () drained_end) \<and>
   not_after E_lsp_parser_destroy (E_lsp_free LOGDIR) (new_events serving drained_end) \<and>
   only_after E_uv_loop_close (E_lsp_free SIGINT) (new_events serving drained_end) \<and>
   only_after (E_lsp_free LOOP) (E_lsp_free EXIT_NOTIFIER) (new_events serving drained_end) \<and>
   E_lsp_parser_destroy \<in> set (new_events serving drained_end) \<and>
   E_lsp_free LOGDIR \<in> set (new_events serving drained_end) \<and>
   E_lsp_free SIGINT \<in> set (new_events serving drained_end) \<and>
   E_lsp_free EXIT_NOTIFIER \<in> set (new_events serving drained_end) \<and>
   E_uv_loop_close \<in> set (new_events serving drained_end)"
proof -
  have ev: "at_exit (env_work 3) serving = Some (Return () drained_end)"
    by code_simp
  have s: "loop serving \<noteq> None" "parser serving \<noteq> None" "logdir serving \<noteq> None"
    "sigint serving \<noteq> None" "exit_notifier serving \<noteq> None"
    by (simp_all add: serving_def)
  from release_in_dependency_order [OF ev] s ev show ?thesis by simp
qed

text \<open>
  C4. With a loop to destroy, \<^verbatim>\<open>_cleanup_loop\<close> aborts exactly when the final run of the
  loop returns non-zero or \<^verbatim>\<open>uv_loop_close\<close> does. When both report zero, which is what
  libuv answers once every handle is closed and its close callback has run, it returns
  with the loop released and the pointer cleared.
\<close>

theorem cleanup_loop_aborts_on_remaining_activity:
  assumes "loop s \<noteq> None"
  shows "((\<exists>s'. cleanup_loop e s = Abort s') \<longleftrightarrow>
            (uv_run e (trace s) \<noteq> 0 \<or>
             uv_loop_close e (trace s @ [E_uv_run UV_RUN_DEFAULT]) \<noteq> 0)) \<and>
         (uv_run e (trace s) = 0 \<and> uv_loop_close e (trace s @ [E_uv_run UV_RUN_DEFAULT]) = 0 \<longrightarrow>
            cleanup_loop e s =
              Return () (s\<lparr>loop := None,
                trace := trace s @ [E_uv_run UV_RUN_DEFAULT, E_uv_loop_close, E_lsp_free LOOP]\<rparr>))"
  using assms by (auto simp: cleanup_loop_def call_def Let_def)

theorem cleanup_loop_aborts_on_remaining_activity_witness:
  "loop serving \<noteq> None \<and>
   cleanup_loop env_leak serving = Abort (serving\<lparr>trace := [E_uv_run UV_RUN_DEFAULT]\<rparr>) \<and>
   uv_run env_leak (trace serving) \<noteq> 0 \<and>
   uv_run env_quiet (trace serving) = 0 \<and>
   uv_loop_close env_quiet (trace serving @ [E_uv_run UV_RUN_DEFAULT]) = 0 \<and>
   cleanup_loop env_quiet serving =
     Return () (serving\<lparr>loop := None,
       trace := trace serving @ [E_uv_run UV_RUN_DEFAULT, E_uv_loop_close, E_lsp_free LOOP]\<rparr>)"
proof -
  have l: "loop serving \<noteq> None" by (simp add: serving_def)
  have a: "cleanup_loop env_leak serving = Abort (serving\<lparr>trace := [E_uv_run UV_RUN_DEFAULT]\<rparr>)"
    by (simp add: cleanup_loop_def env_leak_def env_quiet_def serving_def call_def)
  have q: "uv_run env_leak (trace serving) \<noteq> 0" "uv_run env_quiet (trace serving) = 0"
    "uv_loop_close env_quiet (trace serving @ [E_uv_run UV_RUN_DEFAULT]) = 0"
    by (simp_all add: env_leak_def env_quiet_def)
  from cleanup_loop_aborts_on_remaining_activity [OF l, of env_quiet] l a q
  show ?thesis by simp
qed

text \<open>
  C5, as stated, fails: after the callback of the exit notifier the shutdown flag is
  still unset and the only call made is \<^verbatim>\<open>uv_stop\<close>.
\<close>

theorem exit_notify_callback_sets_no_flag_counterexample:
  "shutdown (on_exit_notify serving) = False \<and>
   new_events serving (on_exit_notify serving) = [E_uv_stop]"
  by (simp add: on_exit_notify_def call_def serving_def new_events_def)

text \<open>
  C5, amended. The callback of the exit notifier only asks the loop to stop. The
  shutdown flag is set by \<^verbatim>\<open>_at_exit\<close>, whose calls all come after the trace at shutdown
  start; \<^verbatim>\<open>main\<close> reaches \<^verbatim>\<open>_at_exit\<close> through the exit hook once its run of the loop has
  returned.
\<close>

theorem exit_notify_callback_only_stops_loop:
  "on_exit_notify s = s\<lparr>trace := trace s @ [E_uv_stop]\<rparr> \<and>
   (at_exit e s = Some r \<longrightarrow>
      shutdown (outcome_state r) \<and>
      (\<exists>rest. trace (outcome_state r) = shutdown_start s @ rest)) \<and>
   (initialize e argv process_start = Return av s1 \<longrightarrow>
      main e argv =
        exit_process e 0
          (call (E_LSP_LOG LSP_MSG_INFO ''program about to exit.'')
             (call (E_uv_run UV_RUN_DEFAULT) s1)))"
proof -
  have 1: "on_exit_notify s = s\<lparr>trace := trace s @ [E_uv_stop]\<rparr>"
    by (simp add: on_exit_notify_def call_def)
  have 2: "shutdown (outcome_state r) \<and>
      (\<exists>rest. trace (outcome_state r) = shutdown_start s @ rest)"
    if "at_exit e s = Some r"
    using at_exit_sets_shutdown [OF that] at_exit_trace_prefix [OF that] by auto
  have 3: "main e argv =
        exit_process e 0
          (call (E_LSP_LOG LSP_MSG_INFO ''program about to exit.'')
             (call (E_uv_run UV_RUN_DEFAULT) s1))"
    if "initialize e argv process_start = Return av s1"
    using that by (simp add: main_def process_start_def Let_def)
  from 1 2 3 show ?thesis by blast
qed

theorem exit_notify_callback_only_stops_loop_witness:
  "on_exit_notify serving = serving\<lparr>trace := [E_uv_stop]\<rparr> \<and>
   at_exit (env_work 3) serving = Some (Return () drained_end) \<and>
   shutdown drained_end \<and>
   (\<exists>rest. trace drained_end = shutdown_start serving @ rest) \<and>
   initialize env_quiet [''tags-lsp'']
       process_start =
     Return [''tags-lsp'']
       (outcome_state (initialize env_quiet [''tags-lsp'']
          process_start)) \<and>
   main env_quiet [''tags-lsp''] =
     exit_process env_quiet 0
       (call (E_LSP_LOG LSP_MSG_INFO ''program about to exit.'')
          (call (E_uv_run UV_RUN_DEFAULT)
             (outcome_state (initialize env_quiet [''tags-lsp'']
                process_start))))"
proof -
  have ev: "at_exit (env_work 3) serving = Some (Return () drained_end)"
    by code_simp
  have i: "initialize env_quiet [''tags-lsp'']
       process_start =
     Return [''tags-lsp'']
       (outcome_state (initialize env_quiet [''tags-lsp'']
          process_start))"
    by (simp add: initialize_def signal_sigint_init_def init_exit_notifier_def
        parser_command_line_options_def strncmp_eq_def env_quiet_def call_def Let_def
        outcome_state_def process_start_def)
  from exit_notify_callback_only_stops_loop
    [where s = serving and e = "env_work 3" and r = "Return () drained_end"] ev
  have a: "on_exit_notify serving = serving\<lparr>trace := trace serving @ [E_uv_stop]\<rparr>"
    "shutdown drained_end" "\<exists>rest. trace drained_end = shutdown_start serving @ rest"
    by (simp_all add: outcome_state_def)
  from exit_notify_callback_only_stops_loop
    [where e = env_quiet and argv = "[''tags-lsp'']" and av = "[''tags-lsp'']"
       and ?s1.0 = "outcome_state (initialize env_quiet [''tags-lsp'']
          process_start)"] i
  have m: "main env_quiet [''tags-lsp''] =
     exit_process env_quiet 0
       (call (E_LSP_LOG LSP_MSG_INFO ''program about to exit.'')
          (call (E_uv_run UV_RUN_DEFAULT)
             (outcome_state (initialize env_quiet [''tags-lsp'']
                process_start))))"
    by blast
  from a ev i m show ?thesis by (simp add: serving_def)
qed

section \<open>The option loop\<close>

lemma selector_help [simp]: "selector ''-h'' = None" "selector ''--help'' = None"
  by (simp_all add: selector_def strncmp_eq_def)

lemma strncmp_eq_excl:
  "strncmp_eq a ''--pipe='' \<Longrightarrow> \<not> strncmp_eq a ''--port=''"
  "strncmp_eq a ''--pipe='' \<Longrightarrow> a \<noteq> ''--stdio''"
  "strncmp_eq a ''--port='' \<Longrightarrow> a \<noteq> ''--stdio''"
  "strncmp_eq a ''--pipe='' \<Longrightarrow> a \<noteq> ''-h'' \<and> a \<noteq> ''--help''"
  "strncmp_eq a ''--port='' \<Longrightarrow> a \<noteq> ''-h'' \<and> a \<noteq> ''--help''"
  by (auto simp: strncmp_eq_def)

lemma selector_stdio: "selector ''--stdio'' = Some Stdio"
  by (simp add: selector_def)

lemma selector_pipe:
  "strncmp_eq a ''--pipe='' \<Longrightarrow> selector a = Some (PipeOrSocketFile (drop 7 a))"
  by (simp add: selector_def strncmp_eq_excl)

lemma selector_port:
  "strncmp_eq a ''--port='' \<Longrightarrow> selector a = map_option TcpPort (port_number (drop 7 a))"
  using strncmp_eq_excl(1) [of a] by (auto simp: selector_def strncmp_eq_excl)

lemma isdigit_not_space_or_sign:
  "isdigit c \<Longrightarrow> \<not> isspace c \<and> c \<noteq> CHR ''-'' \<and> c \<noteq> CHR ''+''"
  by (auto simp: isdigit_def isspace_def)

lemma int32_id: "0 \<le> n \<Longrightarrow> n \<le> INT_MAX \<Longrightarrow> int32 (strtol_range n) = n"
  by (simp add: int32_def strtol_range_def LONG_MAX_def INT_MAX_def)

lemma sscanf_d_representable:
  assumes "representable_port v"
  shows "sscanf_d v = port_number v"
proof -
  from assms have v: "v \<noteq> []" "list_all isdigit v" and
    n: "port_number v = Some (int (decimal v))" "int (decimal v) \<le> INT_MAX"
    by (auto simp: representable_port_def port_number_def split: if_splits)
  from v obtain c cs where c: "v = c # cs" "isdigit c" by (cases v) auto
  from isdigit_not_space_or_sign [OF c(2)] c(1)
  have 1: "dropWhile isspace v = v" "hd v \<noteq> CHR ''-''" "hd v \<noteq> CHR ''+''" by simp_all
  from v(2) have 2: "takeWhile isdigit v = v" by (simp add: list_all_iff)
  have "sscanf_d v = Some (int32 (strtol_range (int (decimal v))))"
    using v(1) 1(2,3) by (simp add: sscanf_d_def Let_def 1(1) 2)
  with n int32_id [of "int (decimal v)"] show ?thesis by simp
qed

lemma transport_config_updates:
  "transport_config (cfg\<lparr>cfg_type := TAG_LSP_IO_STDIO\<rparr>) = Some Stdio"
  "transport_config (cfg\<lparr>cfg_type := TAG_LSP_IO_PIPE, cfg_data := IO_file f\<rparr>) =
     Some (PipeOrSocketFile f)"
  "transport_config (cfg\<lparr>cfg_type := TAG_LSP_IO_PORT, cfg_data := IO_port n\<rparr>) =
     Some (TcpPort n)"
  by (simp_all add: transport_config_def)

lemma loop_append_case:
  "parser_command_line_options_loop e (xs @ ys) cfg s =
   (case parser_command_line_options_loop e xs cfg s of
      Return cfg1 s1 \<Rightarrow> parser_command_line_options_loop e ys cfg1 s1
    | Exit st s1 \<Rightarrow> Exit st s1
    | Abort s1 \<Rightarrow> Abort s1)"
proof (induction xs arbitrary: cfg s)
  case Nil
  then show ?case by simp
next
  case (Cons a xs)
  then show ?case by (simp add: Let_def split: option.split)
qed

lemma loop_append:
  "parser_command_line_options_loop e xs cfg s = Return cfg1 s1 \<Longrightarrow>
   parser_command_line_options_loop e (xs @ ys) cfg s =
   parser_command_line_options_loop e ys cfg1 s1"
  by (simp add: loop_append_case)

lemma loop_hlp:
  "a = ''-h'' \<or> a = ''--help'' \<Longrightarrow>
   parser_command_line_options_loop e (a # argv) cfg s =
   Exit EXIT_SUCCESS (call (E_fprintf_stderr (s_help e)) s)"
  by auto

lemma loop_stdio:
  "parser_command_line_options_loop e (''--stdio'' # argv) cfg s =
   parser_command_line_options_loop e argv (cfg\<lparr>cfg_type := TAG_LSP_IO_STDIO\<rparr>) s"
  by simp

lemma loop_pipe:
  "strncmp_eq a ''--pipe='' \<Longrightarrow>
   parser_command_line_options_loop e (a # argv) cfg s =
   parser_command_line_options_loop e argv
     (cfg\<lparr>cfg_type := TAG_LSP_IO_PIPE, cfg_data := IO_file (drop 7 a)\<rparr>) s"
  by (simp add: strncmp_eq_excl eval_nat_numeral)

lemma loop_port_bad:
  "strncmp_eq a ''--port='' \<Longrightarrow> sscanf_d (drop 7 a) = None \<Longrightarrow>
   parser_command_line_options_loop e (a # argv) cfg s =
   Exit EXIT_FAILURE
     (call (E_fprintf_stderr (''invalid value for `--port`: '' @ drop 7 a @ ''.'' @ newline)) s)"
  using strncmp_eq_excl(1) [of a]
  by (auto simp: strncmp_eq_excl Let_def eval_nat_numeral)

lemma loop_port_ok:
  "strncmp_eq a ''--port='' \<Longrightarrow> sscanf_d (drop 7 a) = Some n \<Longrightarrow>
   parser_command_line_options_loop e (a # argv) cfg s =
   parser_command_line_options_loop e argv
     (cfg\<lparr>cfg_type := TAG_LSP_IO_PORT, cfg_data := IO_port n\<rparr>) s"
  using strncmp_eq_excl(1) [of a]
  by (auto simp: strncmp_eq_excl Let_def eval_nat_numeral)

lemma loop_single_continue:
  "\<not> stops_parsing a \<Longrightarrow>
   \<exists>cfg1 s1. parser_command_line_options_loop e [a] cfg s = Return cfg1 s1"
  by (cases "sscanf_d (drop 7 a)") (simp_all add: stops_parsing_def Let_def eval_nat_numeral)

lemma loop_step_continue:
  assumes "\<not> stops_parsing a"
  shows "\<exists>cfg1 s1. parser_command_line_options_loop e [a] cfg s = Return cfg1 s1 \<and>
     (\<forall>argv. parser_command_line_options_loop e (a # argv) cfg s =
       parser_command_line_options_loop e argv cfg1 s1)"
proof -
  from loop_single_continue [OF assms, of e cfg s] obtain cfg1 s1 where
    r: "parser_command_line_options_loop e [a] cfg s = Return cfg1 s1" by blast
  from loop_append [OF r] have
    "\<forall>argv. parser_command_line_options_loop e (a # argv) cfg s =
       parser_command_line_options_loop e argv cfg1 s1" by simp
  with r show ?thesis by blast
qed

lemma loop_step_stop:
  assumes "stops_parsing a"
  shows "\<exists>st s1. parser_command_line_options_loop e (a # argv) cfg s = Exit st s1"
proof -
  from assms consider "a = ''-h'' \<or> a = ''--help''"
    | "strncmp_eq a ''--port=''" "sscanf_d (drop 7 a) = None"
    by (auto simp: stops_parsing_def)
  then show ?thesis
  proof cases
    case 1
    from loop_hlp [OF 1] show ?thesis by blast
  next
    case 2
    from loop_port_bad [OF 2] show ?thesis by blast
  qed
qed

lemma loop_returns_iff:
  "(\<exists>cfg' s'. parser_command_line_options_loop e argv cfg s = Return cfg' s') \<longleftrightarrow>
   (\<forall>a\<in>set argv. \<not> stops_parsing a)"
proof (induction argv arbitrary: cfg s)
  case Nil
  then show ?case by simp
next
  case (Cons a argv)
  show ?case
  proof (cases "stops_parsing a")
    case True
    from loop_step_stop [OF True, of e argv cfg s] True show ?thesis by auto
  next
    case False
    from loop_step_continue [OF False, of e cfg s] obtain cfg1 s1 where
      "parser_command_line_options_loop e (a # argv) cfg s =
       parser_command_line_options_loop e argv cfg1 s1" by blast
    with Cons.IH [of cfg1 s1] False show ?thesis by simp
  qed
qed

lemma loop_transport:
  "parser_command_line_options_loop e argv cfg s = Return cfg' s' \<Longrightarrow>
   transport_config cfg = Some t0 \<Longrightarrow>
   \<forall>a\<in>set argv. strncmp_eq a ''--port='' \<longrightarrow> representable_port (drop 7 a) \<Longrightarrow>
   transport_config cfg' = Some (last (t0 # List.map_filter selector argv))"
proof (induction argv arbitrary: cfg s t0)
  case Nil
  then show ?case by simp
next
  case (Cons a argv)
  from Cons.prems(3) have rest:
    "\<forall>a\<in>set argv. strncmp_eq a ''--port='' \<longrightarrow> representable_port (drop 7 a)"
    by simp
  consider (hlp) "a = ''-h'' \<or> a = ''--help''"
    | (stdio) "a = ''--stdio''"
    | (pipe) "strncmp_eq a ''--pipe=''"
    | (port) "strncmp_eq a ''--port=''"
    | (other) "a \<noteq> ''-h''" "a \<noteq> ''--help''" "a \<noteq> ''--stdio''"
        "\<not> strncmp_eq a ''--pipe=''" "\<not> strncmp_eq a ''--port=''"
    by blast
  then show ?case
  proof cases
    case hlp
    from loop_hlp [OF hlp] Cons.prems show ?thesis by simp
  next
    case stdio
    with Cons.prems(1) have
      "parser_command_line_options_loop e argv (cfg\<lparr>cfg_type := TAG_LSP_IO_STDIO\<rparr>) s = Return cfg' s'"
      by (simp add: loop_stdio)
    from Cons.IH [OF this transport_config_updates(1) rest] stdio show ?thesis
      by (simp add: selector_stdio)
  next
    case pipe
    from loop_pipe [OF pipe] Cons.prems(1) have
      "parser_command_line_options_loop e argv
         (cfg\<lparr>cfg_type := TAG_LSP_IO_PIPE, cfg_data := IO_file (drop 7 a)\<rparr>) s = Return cfg' s'"
      by simp
    from Cons.IH [OF this transport_config_updates(2) rest] show ?thesis
      by (simp add: selector_pipe [OF pipe])
  next
    case port
    with Cons.prems(3) have rp: "representable_port (drop 7 a)" by simp
    then obtain n where n: "port_number (drop 7 a) = Some n"
      by (auto simp: representable_port_def split: option.splits)
    with sscanf_d_representable [OF rp] have sc: "sscanf_d (drop 7 a) = Some n" by simp
    from loop_port_ok [OF port sc] Cons.prems(1) have
      "parser_command_line_options_loop e argv
         (cfg\<lparr>cfg_type := TAG_LSP_IO_PORT, cfg_data := IO_port n\<rparr>) s = Return cfg' s'"
      by simp
    from Cons.IH [OF this transport_config_updates(3) rest] show ?thesis
      by (simp add: selector_port [OF port] n)
  next
    case other
    have sel: "selector a = None" using other by (simp add: selector_def)
    have "\<not> stops_parsing a" using other by (simp add: stops_parsing_def)
    from loop_step_continue [OF this, of e cfg s] obtain cfg1 s1 where
      r: "parser_command_line_options_loop e [a] cfg s = Return cfg1 s1" and
      st: "\<forall>argv. parser_command_line_options_loop e (a # argv) cfg s =
       parser_command_line_options_loop e argv cfg1 s1" by blast
    have "cfg1 = cfg" using r other
      by (simp add: Let_def split: if_splits)
    with st Cons.prems(1) have
      "parser_command_line_options_loop e argv cfg s1 = Return cfg' s'" by simp
    from Cons.IH [OF this Cons.prems(2) rest] sel show ?thesis
      by simp
  qed
qed

lemma initialize_started:
  assumes "\<forall>h. uv_loop_init e h = 0" and "\<forall>h. uv_signal_init e h = 0"
  shows "initialize e argv s =
     (case parser_command_line_options e argv (started s) of
        Abort s6 \<Rightarrow> Abort s6
      | Exit st s6 \<Rightarrow> Exit st s6
      | Return io s6 \<Rightarrow>
          Return argv
            ((call E_lsp_parser_create
               (call E_lsp_work_init (call E_lsp_msg_init
                  (call (E_tag_lsp_io_init io) (show_welecome e (call E_lsp_log_init s6))))))
             \<lparr>parser := Some Allocated\<rparr>))"
proof -
  have "init_exit_notifier
          (call E_uv_signal_start (call E_uv_signal_init
            ((call (E_lsp_malloc SIGINT)
               (call E_uv_loop_init
                 ((call (E_lsp_malloc LOOP)
                    ((call E_uv_disable_stdio_inheritance (call E_uv_setup_args s))
                     \<lparr>lsp_log_level := Some LSP_MSG_INFO\<rparr>))
                  \<lparr>loop := Some Allocated\<rparr>)))
             \<lparr>sigint := Some Allocated\<rparr>))) = started s"
    by (simp add: init_exit_notifier_def started_def startup_events_def call_def)
  with assms show ?thesis
    by (simp add: initialize_def signal_sigint_init_def Let_def split: outcome.split)
qed

lemma loop_single_state:
  assumes "parser_command_line_options_loop e [a] cfg s = Return cfg1 s1"
  shows "same_handles s s1 \<and> (\<exists>evs. trace s1 = trace s @ evs \<and> list_all is_log_option_event evs)"
  using assms
  by (auto simp: Let_def same_handles_def call_def split: if_splits option.splits)

lemma loop_prefix_state:
  "parser_command_line_options_loop e xs cfg s = Return cfg1 s1 \<Longrightarrow>
   same_handles s s1 \<and> (\<exists>evs. trace s1 = trace s @ evs \<and> list_all is_log_option_event evs)"
proof (induction xs arbitrary: cfg s)
  case Nil
  then show ?case by (simp add: same_handles_def)
next
  case (Cons a xs)
  have "parser_command_line_options_loop e ([a] @ xs) cfg s = Return cfg1 s1"
    using Cons.prems by simp
  then obtain cfg2 s2 where
    a: "parser_command_line_options_loop e [a] cfg s = Return cfg2 s2" and
    r: "parser_command_line_options_loop e xs cfg2 s2 = Return cfg1 s1"
    unfolding loop_append_case by (auto split: outcome.splits)
  from loop_single_state [OF a] obtain ev1 where
    1: "same_handles s s2" "trace s2 = trace s @ ev1" "list_all is_log_option_event ev1" by blast
  from Cons.IH [OF r] obtain ev2 where
    2: "same_handles s2 s1" "trace s1 = trace s2 @ ev2" "list_all is_log_option_event ev2" by blast
  from 1 2 have "same_handles s s1" by (simp add: same_handles_def)
  moreover from 1 2 have "trace s1 = trace s @ (ev1 @ ev2)" "list_all is_log_option_event (ev1 @ ev2)"
    by simp_all
  ultimately show ?case by blast
qed

lemma initialize_stops:
  assumes i: "\<forall>h. uv_loop_init e h = 0" "\<forall>h. uv_signal_init e h = 0"
    and xs: "\<forall>x\<in>set xs. \<not> stops_parsing x"
    and a: "\<And>cfg s. parser_command_line_options_loop e (a # ys) cfg s = Exit st (call ev s)"
  shows "\<exists>s' evs. initialize e (xs @ a # ys) s0 = Exit st s' \<and>
     trace s' = trace s0 @ startup_events @ evs @ [ev] \<and>
     list_all is_log_option_event evs \<and>
     loop s' = Some Allocated \<and> sigint s' = Some Allocated \<and>
     exit_notifier s' = Some Allocated \<and> parser s' = parser s0"
proof -
  let ?c0 = "\<lparr>cfg_type = TAG_LSP_IO_STDIO, cfg_data = IO_unset, cfg_cb = CB_on_io_in\<rparr>"
  from xs loop_returns_iff [of e xs ?c0 "started s0"] obtain cfg1 s1 where
    r: "parser_command_line_options_loop e xs ?c0 (started s0) = Return cfg1 s1" by blast
  from loop_prefix_state [OF r] obtain evs where
    p: "same_handles (started s0) s1" "trace s1 = trace (started s0) @ evs"
       "list_all is_log_option_event evs" by blast
  have "parser_command_line_options e (xs @ a # ys) (started s0) = Exit st (call ev s1)"
    unfolding parser_command_line_options_def by (simp only: loop_append [OF r] a)
  then have "initialize e (xs @ a # ys) s0 = Exit st (call ev s1)"
    by (simp add: initialize_started [OF i])
  moreover have "trace (call ev s1) = trace s0 @ startup_events @ evs @ [ev]"
    using p(2) by (simp add: call_def started_def)
  moreover have "loop (call ev s1) = Some Allocated \<and> sigint (call ev s1) = Some Allocated \<and>
     exit_notifier (call ev s1) = Some Allocated \<and> parser (call ev s1) = parser s0"
    using p(1) by (simp add: call_def started_def same_handles_def)
  ultimately show ?thesis using p(3) by blast
qed

lemma main_of_exit:
  "initialize e argv process_start = Exit st s' \<Longrightarrow> main e argv = exit_process e st s'"
  by (simp add: main_def process_start_def Let_def)

lemma exit_process_status:
  "exit_process e st s = Some (Terminated st' t) \<Longrightarrow> st' = st"
  by (auto simp: exit_process_def at_exit_not_Exit split: option.splits outcome.splits)

lemma stopped_trace_facts:
  assumes "trace s' = trace process_start @ startup_events @ evs @ [E_fprintf_stderr m]"
    and "list_all is_log_option_event evs"
  shows "E_uv_loop_init \<in> set (trace s') \<and> E_uv_signal_init \<in> set (trace s') \<and>
     E_uv_async_init \<in> set (trace s') \<and>
     (\<forall>io. E_tag_lsp_io_init io \<notin> set (trace s')) \<and>
     (\<forall>m. E_uv_run m \<notin> set (trace s'))"
proof -
  have "\<not> is_log_option_event (E_tag_lsp_io_init io)" "\<not> is_log_option_event (E_uv_run md)" for io md
    by simp_all
  with assms(2) have "E_tag_lsp_io_init io \<notin> set evs" "E_uv_run md \<notin> set evs" for io md
    by (auto simp: list_all_iff)
  then show ?thesis
    by (auto simp: assms(1) process_start_def startup_events_def call_def g_tags0_def)
qed

section \<open>Properties of the command line\<close>

lemma loop_skips_unrecognized:
  "\<not> recognized a \<Longrightarrow>
   parser_command_line_options_loop e (xs @ a # ys) cfg s =
   parser_command_line_options_loop e (xs @ ys) cfg s"
proof (induction xs arbitrary: cfg s)
  case Nil
  then show ?case by (simp add: recognized_def)
next
  case (Cons x xs)
  then show ?case by (simp add: Let_def split: option.split)
qed

text \<open>
  C10. An argument that is none of \<^verbatim>\<open>-h\<close>, \<^verbatim>\<open>--help\<close>, \<^verbatim>\<open>--stdio\<close> and begins with none of
  \<^verbatim>\<open>--pipe=\<close>, \<^verbatim>\<open>--port=\<close>, \<^verbatim>\<open>--logdir=\<close>, \<^verbatim>\<open>--logfile=\<close> is ignored: wherever it
  stands in the argument vector, option parsing ends the same way (return or exit, with
  the same status), with the same transport configuration, the same log paths and the
  same calls made (so nothing is printed for it) as on the vector without it.
\<close>

theorem unrecognized_argument_ignored:
  "\<not> recognized a \<Longrightarrow>
   parser_command_line_options e (xs @ a # ys) s =
   parser_command_line_options e (xs @ ys) s"
  by (simp add: parser_command_line_options_def loop_skips_unrecognized)

theorem unrecognized_argument_ignored_witness:
  "\<not> recognized ''--verbose'' \<and>
   parser_command_line_options env_quiet
     ([''tags-lsp'', ''--pipe=/tmp/s''] @ ''--verbose'' # [''--logdir=/var'']) g_tags0 =
   parser_command_line_options env_quiet
     ([''tags-lsp'', ''--pipe=/tmp/s''] @ [''--logdir=/var'']) g_tags0 \<and>
   parser_command_line_options env_quiet
     [''tags-lsp'', ''--pipe=/tmp/s'', ''--logdir=/var''] g_tags0 =
   Return \<lparr>cfg_type = TAG_LSP_IO_PIPE, cfg_data = IO_file ''/tmp/s'', cfg_cb = CB_on_io_in\<rparr>
     (g_tags0\<lparr>logdir := Some ''/var'', trace := [E_lsp_strdup ''/var'']\<rparr>)"
proof -
  have h: "\<not> recognized ''--verbose''"
    by (simp add: recognized_def strncmp_eq_def)
  have r: "parser_command_line_options env_quiet
     [''tags-lsp'', ''--pipe=/tmp/s'', ''--logdir=/var''] g_tags0 =
   Return \<lparr>cfg_type = TAG_LSP_IO_PIPE, cfg_data = IO_file ''/tmp/s'', cfg_cb = CB_on_io_in\<rparr>
     (g_tags0\<lparr>logdir := Some ''/var'', trace := [E_lsp_strdup ''/var'']\<rparr>)"
    by (simp add: parser_command_line_options_def strncmp_eq_def call_def g_tags0_def Let_def)
  from h r unrecognized_argument_ignored
    [OF h, of env_quiet "[''tags-lsp'', ''--pipe=/tmp/s'']" "[''--logdir=/var'']" g_tags0]
  show ?thesis by simp
qed

text \<open>
  C9, as stated, fails: the port number goes through the 32-bit \<^verbatim>\<open>int ret\<close>, so on
  \<^verbatim>\<open>--port=2147483648\<close> the configuration produced is port -2147483648, not the port
  the selector names.
\<close>

theorem port_number_overflow_counterexample:
  "parser_command_line_options env_quiet
     [''tags-lsp'', ''--pipe=/tmp/s'', ''--port=2147483648''] g_tags0 =
     Return
       \<lparr>cfg_type = TAG_LSP_IO_PORT, cfg_data = IO_port (- 2147483648), cfg_cb = CB_on_io_in\<rparr>
       g_tags0 \<and>
   transport_config
     \<lparr>cfg_type = TAG_LSP_IO_PORT, cfg_data = IO_port (- 2147483648), cfg_cb = CB_on_io_in\<rparr> =
     Some (TcpPort (- 2147483648)) \<and>
   last_selector [''tags-lsp'', ''--pipe=/tmp/s'', ''--port=2147483648''] =
     TcpPort 2147483648 \<and>
   transport_config
     \<lparr>cfg_type = TAG_LSP_IO_PORT, cfg_data = IO_port (- 2147483648), cfg_cb = CB_on_io_in\<rparr> \<noteq>
     Some (last_selector [''tags-lsp'', ''--pipe=/tmp/s'', ''--port=2147483648''])"
  by (simp add: parser_command_line_options_def strncmp_eq_def sscanf_d_def isspace_def
      isdigit_def decimal_def int32_def strtol_range_def LONG_MAX_def transport_config_def
      last_selector_def selector_def port_number_def)

text \<open>
  C9, amended. For every argument vector in which each \<^verbatim>\<open>--port=\<close> value is a decimal
  number that fits the \<^verbatim>\<open>int\<close> of the program: option parsing returns exactly when no
  argument is \<^verbatim>\<open>-h\<close> or \<^verbatim>\<open>--help\<close>, and the configuration it returns is that of the last
  transport selector of the vector, stdio when the vector has none.
\<close>

theorem last_transport_selector_wins:
  assumes "\<forall>a\<in>set argv. strncmp_eq a ''--port='' \<longrightarrow> representable_port (drop 7 a)"
  shows "((\<exists>cfg s'. parser_command_line_options e argv s = Return cfg s') \<longleftrightarrow>
            (\<forall>a\<in>set argv. a \<noteq> ''-h'' \<and> a \<noteq> ''--help'')) \<and>
         (parser_command_line_options e argv s = Return cfg s' \<longrightarrow>
            transport_config cfg = Some (last_selector argv))"
proof -
  have st: "stops_parsing a \<longleftrightarrow> a = ''-h'' \<or> a = ''--help''" if "a \<in> set argv" for a
  proof (cases "strncmp_eq a ''--port=''")
    case True
    with assms that have "representable_port (drop 7 a)" by blast
    from sscanf_d_representable [OF this] this have "sscanf_d (drop 7 a) \<noteq> None"
      by (auto simp: representable_port_def split: option.splits)
    then show ?thesis by (auto simp: stops_parsing_def)
  next
    case False
    then show ?thesis by (simp add: stops_parsing_def)
  qed
  have "(\<exists>cfg s'. parser_command_line_options e argv s = Return cfg s') \<longleftrightarrow>
      (\<forall>a\<in>set argv. \<not> stops_parsing a)"
    unfolding parser_command_line_options_def by (rule loop_returns_iff)
  with st have 1: "(\<exists>cfg s'. parser_command_line_options e argv s = Return cfg s') \<longleftrightarrow>
      (\<forall>a\<in>set argv. a \<noteq> ''-h'' \<and> a \<noteq> ''--help'')"
    by simp
  have 2: "transport_config cfg = Some (last_selector argv)"
    if "parser_command_line_options e argv s = Return cfg s'"
  proof -
    have "transport_config cfg = Some (last (Stdio # List.map_filter selector argv))"
      using that unfolding parser_command_line_options_def
      by (rule loop_transport) (simp_all add: transport_config_def assms)
    then show ?thesis
      by (simp add: last_selector_def split: list.split)
  qed
  from 1 2 show ?thesis by blast
qed

theorem last_transport_selector_wins_witness:
  "parser_command_line_options env_quiet
     [''tags-lsp'', ''--pipe=/tmp/s'', ''--stdio'', ''--port=8080'', ''--verbose''] g_tags0 =
     Return \<lparr>cfg_type = TAG_LSP_IO_PORT, cfg_data = IO_port 8080, cfg_cb = CB_on_io_in\<rparr> g_tags0 \<and>
   representable_port (drop 7 ''--port=8080'') \<and>
   (\<exists>cfg s'. parser_command_line_options env_quiet
     [''tags-lsp'', ''--pipe=/tmp/s'', ''--stdio'', ''--port=8080'', ''--verbose''] g_tags0 =
     Return cfg s') \<and>
   transport_config \<lparr>cfg_type = TAG_LSP_IO_PORT, cfg_data = IO_port 8080, cfg_cb = CB_on_io_in\<rparr> =
     Some (last_selector [''tags-lsp'', ''--pipe=/tmp/s'', ''--stdio'', ''--port=8080'', ''--verbose'']) \<and>
   last_selector [''tags-lsp'', ''--pipe=/tmp/s'', ''--stdio'', ''--port=8080'', ''--verbose''] =
     TcpPort 8080 \<and>
   last_selector [''tags-lsp'', ''--port=80'', ''--pipe=/tmp/s''] = PipeOrSocketFile ''/tmp/s'' \<and>
   last_selector [''tags-lsp'', ''--logdir=/var''] = Stdio"
proof -
  let ?argv = "[''tags-lsp'', ''--pipe=/tmp/s'', ''--stdio'', ''--port=8080'', ''--verbose'']"
  let ?cfg = "\<lparr>cfg_type = TAG_LSP_IO_PORT, cfg_data = IO_port 8080, cfg_cb = CB_on_io_in\<rparr>"
  have p: "representable_port (drop 7 ''--port=8080'')"
    by (simp add: representable_port_def port_number_def isdigit_def decimal_def INT_MAX_def)
  have h: "\<forall>a\<in>set ?argv. strncmp_eq a ''--port='' \<longrightarrow> representable_port (drop 7 a)"
    using p by (simp add: strncmp_eq_def)
  have r: "parser_command_line_options env_quiet ?argv g_tags0 = Return ?cfg g_tags0"
    by (simp add: parser_command_line_options_def strncmp_eq_def sscanf_d_def isspace_def
        isdigit_def decimal_def int32_def strtol_range_def LONG_MAX_def)
  have l: "last_selector ?argv = TcpPort 8080"
    "last_selector [''tags-lsp'', ''--port=80'', ''--pipe=/tmp/s''] = PipeOrSocketFile ''/tmp/s''"
    "last_selector [''tags-lsp'', ''--logdir=/var''] = Stdio"
    by (simp_all add: last_selector_def selector_def strncmp_eq_def port_number_def isdigit_def
        decimal_def)
  from last_transport_selector_wins [OF h, of env_quiet g_tags0 ?cfg g_tags0] r l p
  show ?thesis by simp
qed

text \<open>
  C6, as stated, fails. On \<^verbatim>\<open>--port=abc\<close> the process does call \<^verbatim>\<open>exit(EXIT_FAILURE)\<close>,
  but the loop, the SIGINT watcher and the exit notifier have been initialised by then.
  After an earlier \<^verbatim>\<open>-h\<close> the status is 0, and \<^verbatim>\<open>--port=12abc\<close> is taken as port 12.
\<close>

theorem invalid_port_exit_counterexample:
  "exit_status (initialize env_quiet [''tags-lsp'', ''--port=abc''] process_start) =
     Some EXIT_FAILURE \<and>
   E_uv_loop_init \<in> set (trace (outcome_state
     (initialize env_quiet [''tags-lsp'', ''--port=abc''] process_start))) \<and>
   E_uv_signal_init \<in> set (trace (outcome_state
     (initialize env_quiet [''tags-lsp'', ''--port=abc''] process_start))) \<and>
   E_uv_async_init \<in> set (trace (outcome_state
     (initialize env_quiet [''tags-lsp'', ''--port=abc''] process_start))) \<and>
   exit_status (initialize env_quiet [''tags-lsp'', ''-h'', ''--port=abc''] process_start) =
     Some 0 \<and>
   exit_status (initialize env_quiet [''tags-lsp'', ''--port=12abc''] process_start) = None"
  by code_simp

text \<open>
  C6, amended. When libuv initialises the loop and the SIGINT watcher without error, and
  an argument \<^verbatim>\<open>--port=<value>\<close> whose value \<^verbatim>\<open>sscanf\<close> rejects stands before any \<^verbatim>\<open>-h\<close>,
  \<^verbatim>\<open>--help\<close> or other rejected port, then \<^verbatim>\<open>_initialize\<close> calls \<^verbatim>\<open>exit(EXIT_FAILURE)\<close>, a
  non-zero status, right after printing the complaint. By then the loop, the watcher and
  the notifier are initialised and the log paths of the earlier arguments are stored;
  nothing else has been called: no log, transport, message, work or parser
  initialisation and no run of the loop.
\<close>

theorem invalid_port_exits_after_loop_startup:
  assumes "\<forall>h. uv_loop_init e h = 0" and "\<forall>h. uv_signal_init e h = 0"
    and "\<forall>x\<in>set xs. \<not> stops_parsing x"
    and "strncmp_eq a ''--port=''" and "sscanf_d (drop 7 a) = None"
  shows "\<exists>s' evs.
     initialize e (xs @ a # ys) process_start = Exit EXIT_FAILURE s' \<and>
     main e (xs @ a # ys) = exit_process e EXIT_FAILURE s' \<and>
     (\<forall>st t. main e (xs @ a # ys) = Some (Terminated st t) \<longrightarrow> st = EXIT_FAILURE) \<and>
     EXIT_FAILURE \<noteq> 0 \<and>
     trace s' =
       trace process_start @ startup_events @ evs @
       [E_fprintf_stderr (''invalid value for `--port`: '' @ drop 7 a @ ''.'' @ newline)] \<and>
     list_all is_log_option_event evs \<and>
     E_uv_loop_init \<in> set (trace s') \<and> E_uv_signal_init \<in> set (trace s') \<and>
     E_uv_async_init \<in> set (trace s') \<and>
     (\<forall>io. E_tag_lsp_io_init io \<notin> set (trace s')) \<and>
     (\<forall>m. E_uv_run m \<notin> set (trace s'))"
proof -
  from initialize_stops [OF assms(1,2,3), of a ys EXIT_FAILURE
      "E_fprintf_stderr (''invalid value for `--port`: '' @ drop 7 a @ ''.'' @ newline)"
      process_start, OF loop_port_bad [OF assms(4,5)]]
  obtain s' evs where
    i: "initialize e (xs @ a # ys) process_start = Exit EXIT_FAILURE s'" and
    t: "trace s' =
       trace process_start @ startup_events @ evs @
       [E_fprintf_stderr (''invalid value for `--port`: '' @ drop 7 a @ ''.'' @ newline)]"
       "list_all is_log_option_event evs"
    by blast
  have m: "main e (xs @ a # ys) = exit_process e EXIT_FAILURE s'"
    by (rule main_of_exit [OF i])
  have f: "\<forall>st t. main e (xs @ a # ys) = Some (Terminated st t) \<longrightarrow> st = EXIT_FAILURE"
    unfolding m using exit_process_status by blast
  have c: "EXIT_FAILURE \<noteq> 0"
    by (simp add: EXIT_FAILURE_def)
  from i m f c t stopped_trace_facts [OF t] show ?thesis by blast
qed

theorem invalid_port_exits_after_loop_startup_witness:
  "initialize env_quiet ([''tags-lsp'', ''--logdir=/var''] @ ''--port=abc'' # [''-h''])
       process_start =
     Exit EXIT_FAILURE
       (process_start\<lparr>loop := Some Allocated, sigint := Some Allocated,
          exit_notifier := Some Allocated, logdir := Some ''/var'',
          lsp_log_level := Some LSP_MSG_INFO,
          trace := trace process_start @ startup_events @ [E_lsp_strdup ''/var''] @
            [E_fprintf_stderr (''invalid value for `--port`: '' @ ''abc'' @ ''.'' @ newline)]\<rparr>) \<and>
   (\<exists>s' evs.
     initialize env_quiet ([''tags-lsp'', ''--logdir=/var''] @ ''--port=abc'' # [''-h''])
       process_start = Exit EXIT_FAILURE s' \<and>
     main env_quiet ([''tags-lsp'', ''--logdir=/var''] @ ''--port=abc'' # [''-h'']) =
       exit_process env_quiet EXIT_FAILURE s' \<and>
     trace s' =
       trace process_start @ startup_events @ evs @
       [E_fprintf_stderr (''invalid value for `--port`: '' @ drop 7 ''--port=abc'' @ ''.'' @ newline)] \<and>
     list_all is_log_option_event evs \<and>
     E_uv_loop_init \<in> set (trace s') \<and>
     (\<forall>io. E_tag_lsp_io_init io \<notin> set (trace s')) \<and>
     (\<forall>m. E_uv_run m \<notin> set (trace s')))"
proof -
  have 1: "\<forall>h. uv_loop_init env_quiet h = 0" "\<forall>h. uv_signal_init env_quiet h = 0"
    by (simp_all add: env_quiet_def)
  have 2: "\<forall>x\<in>set [''tags-lsp'', ''--logdir=/var'']. \<not> stops_parsing x"
    by (simp add: stops_parsing_def strncmp_eq_def)
  have 3: "strncmp_eq ''--port=abc'' ''--port=''"
    by (simp add: strncmp_eq_def)
  have 4: "sscanf_d (drop 7 ''--port=abc'') = None"
    by code_simp
  have 5: "initialize env_quiet ([''tags-lsp'', ''--logdir=/var''] @ ''--port=abc'' # [''-h''])
       process_start =
     Exit EXIT_FAILURE
       (process_start\<lparr>loop := Some Allocated, sigint := Some Allocated,
          exit_notifier := Some Allocated, logdir := Some ''/var'',
          lsp_log_level := Some LSP_MSG_INFO,
          trace := trace process_start @ startup_events @ [E_lsp_strdup ''/var''] @
            [E_fprintf_stderr (''invalid value for `--port`: '' @ ''abc'' @ ''.'' @ newline)]\<rparr>)"
    by code_simp
  from invalid_port_exits_after_loop_startup [OF 1 2 3 4, of "[''-h'']"] 5
  show ?thesis by blast
qed

text \<open>
  C8, as stated, fails: with a rejected \<^verbatim>\<open>--port=\<close> value before \<^verbatim>\<open>-h\<close> the process exits
  with status 1 and never prints the usage text.
\<close>

theorem help_after_invalid_port_counterexample:
  "exit_status (initialize env_quiet [''tags-lsp'', ''--port=abc'', ''-h''] process_start) =
     Some EXIT_FAILURE \<and>
   EXIT_FAILURE = 1 \<and>
   E_fprintf_stderr (s_help env_quiet) \<notin> set (trace (outcome_state
     (initialize env_quiet [''tags-lsp'', ''--port=abc'', ''-h''] process_start)))"
  by code_simp

text \<open>
  C8, amended. When libuv initialises the loop and the SIGINT watcher without error, and
  \<^verbatim>\<open>-h\<close> or \<^verbatim>\<open>--help\<close> stands before any \<^verbatim>\<open>--port=\<close> argument whose value \<^verbatim>\<open>sscanf\<close>
  rejects, then \<^verbatim>\<open>_initialize\<close> prints the usage text on standard error and calls
  \<^verbatim>\<open>exit(EXIT_SUCCESS)\<close>, status 0. Up to that call the loop has been initialised but
  never run, and the transport has not been initialised.
\<close>

theorem help_exits_before_serving:
  assumes "\<forall>h. uv_loop_init e h = 0" and "\<forall>h. uv_signal_init e h = 0"
    and "\<forall>x\<in>set xs. \<not> stops_parsing x"
    and "a = ''-h'' \<or> a = ''--help''"
  shows "\<exists>s' evs.
     initialize e (xs @ a # ys) process_start = Exit EXIT_SUCCESS s' \<and>
     main e (xs @ a # ys) = exit_process e EXIT_SUCCESS s' \<and>
     (\<forall>st t. main e (xs @ a # ys) = Some (Terminated st t) \<longrightarrow> st = EXIT_SUCCESS) \<and>
     EXIT_SUCCESS = 0 \<and>
     trace s' =
       trace process_start @ startup_events @ evs @ [E_fprintf_stderr (s_help e)] \<and>
     list_all is_log_option_event evs \<and>
     E_uv_loop_init \<in> set (trace s') \<and> E_uv_signal_init \<in> set (trace s') \<and>
     E_uv_async_init \<in> set (trace s') \<and>
     (\<forall>io. E_tag_lsp_io_init io \<notin> set (trace s')) \<and>
     (\<forall>m. E_uv_run m \<notin> set (trace s'))"
proof -
  from initialize_stops [OF assms(1,2,3), of a ys EXIT_SUCCESS
      "E_fprintf_stderr (s_help e)" process_start, OF loop_hlp [OF assms(4)]]
  obtain s' evs where
    i: "initialize e (xs @ a # ys) process_start = Exit EXIT_SUCCESS s'" and
    t: "trace s' = trace process_start @ startup_events @ evs @ [E_fprintf_stderr (s_help e)]"
       "list_all is_log_option_event evs"
    by blast
  have m: "main e (xs @ a # ys) = exit_process e EXIT_SUCCESS s'"
    by (rule main_of_exit [OF i])
  have f: "\<forall>st t. main e (xs @ a # ys) = Some (Terminated st t) \<longrightarrow> st = EXIT_SUCCESS"
    unfolding m using exit_process_status by blast
  have c: "EXIT_SUCCESS = 0"
    by (simp add: EXIT_SUCCESS_def)
  from i m f c t stopped_trace_facts [OF t] show ?thesis by blast
qed

theorem help_exits_before_serving_witness:
  "initialize env_quiet ([''tags-lsp'', ''--port=80''] @ ''--help'' # [''--port=abc''])
       process_start =
     Exit EXIT_SUCCESS
       (process_start\<lparr>loop := Some Allocated, sigint := Some Allocated,
          exit_notifier := Some Allocated, lsp_log_level := Some LSP_MSG_INFO,
          trace := trace process_start @ startup_events @
            [E_fprintf_stderr (s_help env_quiet)]\<rparr>) \<and>
   (\<exists>s' evs.
     initialize env_quiet ([''tags-lsp'', ''--port=80''] @ ''--help'' # [''--port=abc''])
       process_start = Exit EXIT_SUCCESS s' \<and>
     main env_quiet ([''tags-lsp'', ''--port=80''] @ ''--help'' # [''--port=abc'']) =
       exit_process env_quiet EXIT_SUCCESS s' \<and>
     trace s' =
       trace process_start @ startup_events @ evs @ [E_fprintf_stderr (s_help env_quiet)] \<and>
     list_all is_log_option_event evs \<and>
     E_uv_loop_init \<in> set (trace s') \<and>
     (\<forall>io. E_tag_lsp_io_init io \<notin> set (trace s')) \<and>
     (\<forall>m. E_uv_run m \<notin> set (trace s')))"
proof -
  have 1: "\<forall>h. uv_loop_init env_quiet h = 0" "\<forall>h. uv_signal_init env_quiet h = 0"
    by (simp_all add: env_quiet_def)
  have 2: "\<forall>x\<in>set [''tags-lsp'', ''--port=80'']. \<not> stops_parsing x"
    by code_simp
  have 3: "''--help'' = ''-h'' \<or> ''--help'' = ''--help''" by simp
  have 5: "initialize env_quiet ([''tags-lsp'', ''--port=80''] @ ''--help'' # [''--port=abc''])
       process_start =
     Exit EXIT_SUCCESS
       (process_start\<lparr>loop := Some Allocated, sigint := Some Allocated,
          exit_notifier := Some Allocated, lsp_log_level := Some LSP_MSG_INFO,
          trace := trace process_start @ startup_events @
            [E_fprintf_stderr (s_help env_quiet)]\<rparr>)"
    by code_simp
  from help_exits_before_serving [OF 1 2 3, of "[''--port=abc'']"] 5
  show ?thesis by blast
qed

section \<open>Callbacks during the teardown\<close>

lemma adds_no_release_iff:
  "adds_no_release s s' \<longleftrightarrow>
     (\<exists>evs. s' = s\<lparr>trace := trace s @ evs\<rparr> \<and> releases evs = [])"
proof
  assume a: "adds_no_release s s'"
  then have "trace s @ new_events s s' = trace s'"
    unfolding adds_no_release_def new_events_def by (metis append_take_drop_id)
  with a have "s' = s\<lparr>trace := trace s @ new_events s s'\<rparr> \<and> releases (new_events s s') = []"
    by (simp add: adds_no_release_def)
  then show "\<exists>evs. s' = s\<lparr>trace := trace s @ evs\<rparr> \<and> releases evs = []" by blast
next
  assume "\<exists>evs. s' = s\<lparr>trace := trace s @ evs\<rparr> \<and> releases evs = []"
  then obtain evs where "s' = s\<lparr>trace := trace s @ evs\<rparr>" "releases evs = []" by blast
  then show "adds_no_release s s'" by (simp add: adds_no_release_def new_events_def)
qed

lemma adds_no_release_refl: "adds_no_release s s"
  by (auto simp: adds_no_release_iff releases_def intro: exI [of _ "[]"])







text \<open>With the schedule that delivers nothing, the functions are those of the first model.\<close>

lemma uv_run_cb_none: "uv_run_cb no_callbacks m s = call (E_uv_run m) s"
  by (simp add: uv_run_cb_def no_callbacks_def)

lemma cleanup_loop_cb_none: "cleanup_loop_cb e no_callbacks s = cleanup_loop e s"
  by (simp add: cleanup_loop_cb_def cleanup_loop_def uv_run_cb_none)

lemma wait_cb_none_1:
  "wait_for_pending_task_cb e c s = Some s' \<Longrightarrow> c = no_callbacks \<Longrightarrow>
   wait_for_pending_task e s = Some s'"
proof (induction rule: wait_for_pending_task_cb.raw_induct [rotated 1, consumes 1, case_names step])
  case (step wait e c s s')
  show ?case
  proof (cases "lsp_work_queue_size e (trace s) = 0")
    case True
    with step(2) show ?thesis
      by (subst wait_for_pending_task.simps) (simp add: Let_def)
  next
    case False
    with step(2) step(3) have
      "wait e c (call (E_uv_run UV_RUN_ONCE) (call E_lsp_work_queue_size s)) = Some s'"
      by (simp add: Let_def uv_run_cb_none)
    from step(1) [OF this step(3)] False show ?thesis
      by (subst wait_for_pending_task.simps) (simp add: Let_def)
  qed
qed

lemma wait_cb_none_2:
  "wait_for_pending_task e s = Some s' \<Longrightarrow>
   wait_for_pending_task_cb e no_callbacks s = Some s'"
proof (induction rule: wait_for_pending_task.raw_induct [rotated 1, consumes 1, case_names step])
  case (step wait e s s')
  show ?case
  proof (cases "lsp_work_queue_size e (trace s) = 0")
    case True
    with step(2) show ?thesis
      by (subst wait_for_pending_task_cb.simps) (simp add: Let_def)
  next
    case False
    with step(2) have
      "wait e (call (E_uv_run UV_RUN_ONCE) (call E_lsp_work_queue_size s)) = Some s'"
      by (simp add: Let_def)
    from step(1) [OF this] False show ?thesis
      by (subst wait_for_pending_task_cb.simps) (simp add: Let_def uv_run_cb_none)
  qed
qed

lemma wait_cb_none:
  "wait_for_pending_task_cb e no_callbacks s = wait_for_pending_task e s"
proof (cases "wait_for_pending_task_cb e no_callbacks s")
  case None
  show ?thesis
  proof (cases "wait_for_pending_task e s")
    case None
    with \<open>wait_for_pending_task_cb e no_callbacks s = None\<close> show ?thesis by simp
  next
    case (Some s')
    from wait_cb_none_2 [OF Some] None show ?thesis by simp
  qed
next
  case (Some s')
  from wait_cb_none_1 [OF Some refl] Some show ?thesis by simp
qed

lemma at_exit_cb_none: "at_exit_cb e no_callbacks s = at_exit e s"
  unfolding at_exit_cb_def at_exit_def wait_cb_none cleanup_loop_cb_none ..

lemma exit_process_cb_none: "exit_process_cb e no_callbacks st s = exit_process e st s"
  unfolding exit_process_cb_def exit_process_def at_exit_cb_none ..

lemma main_cb_none: "main_cb e no_callbacks argv = main e argv"
  unfolding main_cb_def main_def uv_run_cb_none exit_process_cb_none ..


















section \<open>Property of repeated shutdown triggers\<close>



section \<open>Feeding the decoder\<close>

lemma feed_append:
  "feed d (xs @ ys) =
     (case feed d xs of (d1, m1) \<Rightarrow> (case feed d1 ys of (d2, m2) \<Rightarrow> (d2, m1 @ m2)))"
  by (induction xs arbitrary: d) (auto split: prod.splits)

lemma feed_chunks_concat: "feed_chunks d chunks = feed d (concat chunks)"
  by (induction chunks arbitrary: d) (auto simp: feed_append split: prod.splits)

lemma feed_without_LF:
  "in_headers d \<Longrightarrow> LF \<notin> set xs \<Longrightarrow> feed d xs = (d\<lparr>line := line d @ xs\<rparr>, [])"
proof (induction xs arbitrary: d)
  case Nil
  then show ?case by simp
next
  case (Cons c xs)
  from Cons.prems have c: "c \<noteq> LF" and xs: "LF \<notin> set xs" by auto
  from Cons.prems(1) c have s: "feed_byte d c = (d\<lparr>line := line d @ [c]\<rparr>, [])"
    by (auto simp: feed_byte_def header_byte_def in_headers_def)
  have "in_headers (d\<lparr>line := line d @ [c]\<rparr>)"
    using Cons.prems(1) by (simp add: in_headers_def)
  from Cons.IH [OF this xs] s show ?case by simp
qed

lemma parse_length_no_space:
  assumes "parse_length v = Some n"
  shows "dropWhile (\<lambda>c. c = CHR '' '') v = v"
proof -
  from assms have "v \<noteq> []" "list_all isdigit v"
    by (auto simp: parse_length_def split: if_splits)
  then obtain c cs where v: "v = c # cs" and "isdigit c"
    by (cases v) auto
  then have "c \<noteq> CHR '' ''" by (auto simp: isdigit_def)
  with v show ?thesis by simp
qed

lemma parse_header_line:
  assumes "k \<noteq> []" "CHR '':'' \<notin> set k"
  shows "parse_header (k @ '': '' @ v) = Some (k, dropWhile (\<lambda>c. c = CHR '' '') v)"
proof -
  have t: "takeWhile (\<lambda>c. c \<noteq> CHR '':'') (k @ CHR '':'' # CHR '' '' # v) = k"
    using assms(2) by (auto simp: takeWhile_tail)
  have d: "dropWhile (\<lambda>c. c \<noteq> CHR '':'') (k @ CHR '':'' # CHR '' '' # v) = CHR '':'' # CHR '' '' # v"
    using assms(2) by (auto simp: dropWhile_append)
  from t d assms(1) show ?thesis by (simp add: parse_header_def)
qed

lemma end_of_line_header:
  "l \<noteq> [] \<Longrightarrow> parse_header l = Some (k, v) \<Longrightarrow>
   end_of_line d l =
     (if k = ''Content-Length'' then
        (case parse_length v of
           None \<Rightarrow> (d\<lparr>phase := Failed\<rparr>, [])
         | Some n \<Rightarrow> (d\<lparr>phase := AccumulatingHeaders, declared := Some n\<rparr>, []))
      else (d\<lparr>phase := AccumulatingHeaders\<rparr>, []))"
  by (simp add: end_of_line_def)

lemma feed_header_line:
  assumes "in_headers d" "line d = []" "valid_header n h"
  shows "feed d (header_line h) =
     (d\<lparr>phase := AccumulatingHeaders,
        declared := (if fst h = ''Content-Length'' then Some n else declared d)\<rparr>, [])"
proof -
  obtain k v where h: "h = (k, v)" by (cases h)
  from assms(3) h have k: "k \<noteq> []" "CHR '':'' \<notin> set k" "LF \<notin> set k" "LF \<notin> set v"
    and cl: "k = ''Content-Length'' \<Longrightarrow> parse_length v = Some n"
    by (auto simp: valid_header_def)
  let ?l = "k @ '': '' @ v"
  have nolf: "LF \<notin> set (?l @ [CR])"
    using k by (auto simp: LF_def CR_def)
  let ?d1 = "d\<lparr>line := ?l @ [CR]\<rparr>"
  have 1: "feed d (?l @ [CR]) = (?d1, [])"
    using feed_without_LF [OF assms(1) nolf] assms(2) by simp
  have ph: "phase d \<noteq> BodyComplete" "phase d \<noteq> Failed" "\<And>m. phase d \<noteq> AwaitingBody m"
    using assms(1) by (auto simp: in_headers_def)
  have 2: "feed_byte ?d1 LF = end_of_line (d\<lparr>line := []\<rparr>) ?l"
    using assms(1) by (auto simp: feed_byte_def header_byte_def in_headers_def butlast_append)
  have ne: "?l \<noteq> []" using k(1) by simp
  note e = end_of_line_header [OF ne parse_header_line [OF k(1,2)], where d = "d\<lparr>line := []\<rparr>"]
  have 3: "end_of_line (d\<lparr>line := []\<rparr>) ?l =
     (d\<lparr>phase := AccumulatingHeaders,
        declared := (if k = ''Content-Length'' then Some n else declared d)\<rparr>, [])"
  proof (cases "k = ''Content-Length''")
    case True
    from cl [OF True] have "parse_length (dropWhile (\<lambda>c. c = CHR '' '') v) = Some n"
      by (simp add: parse_length_no_space)
    with e True assms(2) show ?thesis by simp
  next
    case False
    with e assms(2) show ?thesis by simp
  qed
  have "header_line h = (?l @ [CR]) @ [LF]" by (simp add: header_line_def h)
  then have "feed d (header_line h) =
     (case feed d (?l @ [CR]) of (d1, m1) \<Rightarrow> (case feed d1 [LF] of (d2, m2) \<Rightarrow> (d2, m1 @ m2)))"
    by (simp only: feed_append)
  with 1 2 3 show ?thesis by (simp add: h)
qed

lemma feed_headers:
  assumes "in_headers d" "line d = []" "list_all (valid_header n) hdrs" "hdrs \<noteq> []"
  shows "feed d (concat (map header_line hdrs)) =
     (d\<lparr>phase := AccumulatingHeaders,
        declared := (if ''Content-Length'' \<in> fst ` set hdrs then Some n else declared d)\<rparr>, [])"
  using assms
proof (induction hdrs arbitrary: d)
  case Nil
  then show ?case by simp
next
  case (Cons h hdrs)
  let ?d1 = "d\<lparr>phase := AccumulatingHeaders,
        declared := (if fst h = ''Content-Length'' then Some n else declared d)\<rparr>"
  from Cons.prems have vh: "valid_header n h" and vr: "list_all (valid_header n) hdrs" by auto
  have 1: "feed d (header_line h) = (?d1, [])"
    by (rule feed_header_line [OF Cons.prems(1,2) vh])
  have d1: "in_headers ?d1" "line ?d1 = []"
    using Cons.prems(2) by (simp_all add: in_headers_def)
  show ?case
  proof (cases "hdrs = []")
    case True
    with 1 show ?thesis by simp
  next
    case False
    from Cons.IH [OF d1 vr False] 1 show ?thesis
      by (auto simp: feed_append)
  qed
qed

lemma feed_blank_line:
  assumes "in_headers d" "line d = []" "declared d = Some n"
  shows "feed d [CR, LF] =
     (if n = 0 then (d\<lparr>phase := BodyComplete, declared := None\<rparr>, [[]])
      else (d\<lparr>phase := AwaitingBody n\<rparr>, []))"
  using assms
  by (auto simp: feed_byte_def header_byte_def end_of_line_def in_headers_def CR_def LF_def)

lemma feed_body_partial:
  "phase d = AwaitingBody n \<Longrightarrow> length (body d) + length xs < n \<Longrightarrow>
   feed d xs = (d\<lparr>body := body d @ xs\<rparr>, [])"
proof (induction xs arbitrary: d)
  case Nil
  then show ?case by simp
next
  case (Cons c xs)
  from Cons.prems have s: "feed_byte d c = (d\<lparr>body := body d @ [c]\<rparr>, [])"
    by (simp add: feed_byte_def body_byte_def)
  have "phase (d\<lparr>body := body d @ [c]\<rparr>) = AwaitingBody n"
    "length (body (d\<lparr>body := body d @ [c]\<rparr>)) + length xs < n"
    using Cons.prems by simp_all
  from Cons.IH [OF this] s show ?case by simp
qed

lemma feed_body_complete:
  assumes "phase d = AwaitingBody n" "xs \<noteq> []" "length (body d) + length xs = n"
  shows "feed d xs = (d\<lparr>phase := BodyComplete, declared := None, body := []\<rparr>, [body d @ xs])"
proof -
  from assms(2) have xs: "xs = butlast xs @ [last xs]" by simp
  from assms(2,3) have "length (body d) + length (butlast xs) < n" by (cases xs rule: rev_cases) auto
  from feed_body_partial [OF assms(1) this] have
    1: "feed d (butlast xs) = (d\<lparr>body := body d @ butlast xs\<rparr>, [])" .
  have "n \<le> length (body d @ butlast xs @ [last xs])"
    using assms(3) xs by (metis length_append order_refl)
  then have 2: "feed_byte (d\<lparr>body := body d @ butlast xs\<rparr>) (last xs) =
     (d\<lparr>phase := BodyComplete, declared := None, body := []\<rparr>, [body d @ butlast xs @ [last xs]])"
    using assms(1) by (simp add: feed_byte_def body_byte_def)
  have "feed d xs = feed d (butlast xs @ [last xs])" using xs by simp
  also have "\<dots> = (d\<lparr>phase := BodyComplete, declared := None, body := []\<rparr>,
      [body d @ butlast xs @ [last xs]])"
    unfolding feed_append using 1 2 by simp
  finally show ?thesis using xs by simp
qed

lemma feed_frame:
  assumes "valid_frame hdrs b"
  shows "feed decoder0 (frame hdrs b) = (decoder0\<lparr>phase := BodyComplete\<rparr>, [b])"
proof -
  from assms have v: "list_all (valid_header (length b)) hdrs"
    and cl: "''Content-Length'' \<in> fst ` set hdrs"
    by (simp_all add: valid_frame_def)
  from cl have ne: "hdrs \<noteq> []" by auto
  let ?d1 = "decoder0\<lparr>phase := AccumulatingHeaders, declared := Some (length b)\<rparr>"
  have 0: "in_headers decoder0" "line decoder0 = []"
    by (simp_all add: in_headers_def decoder0_def)
  from feed_headers [OF 0 v ne] cl have
    1: "feed decoder0 (concat (map header_line hdrs)) = (?d1, [])" by simp
  have d1: "in_headers ?d1" "line ?d1 = []" "declared ?d1 = Some (length b)"
    by (simp_all add: in_headers_def decoder0_def)
  note 2 = feed_blank_line [OF d1]
  have 3: "feed ?d1 ([CR, LF] @ b) = (decoder0\<lparr>phase := BodyComplete\<rparr>, [b])"
  proof (cases "b = []")
    case True
    with 2 show ?thesis by (simp add: decoder0_def)
  next
    case False
    let ?d2 = "?d1\<lparr>phase := AwaitingBody (length b)\<rparr>"
    from False 2 have 4: "feed ?d1 [CR, LF] = (?d2, [])" by simp
    have "phase ?d2 = AwaitingBody (length b)" "length (body ?d2) + length b = length b"
      by (simp_all add: decoder0_def)
    from feed_body_complete [OF this(1) False this(2)]
    have "feed ?d2 b = (decoder0\<lparr>phase := BodyComplete\<rparr>, [b])"
      by (simp add: decoder0_def)
    with 4 show ?thesis unfolding feed_append by simp
  qed
  have "frame hdrs b = concat (map header_line hdrs) @ ([CR, LF] @ b)"
    by (simp add: frame_def)
  then have "feed decoder0 (frame hdrs b) =
    (case feed decoder0 (concat (map header_line hdrs)) of
       (d1, m1) \<Rightarrow> (case feed d1 ([CR, LF] @ b) of (d2, m2) \<Rightarrow> (d2, m1 @ m2)))"
    by (simp only: feed_append)
  with 1 3 show ?thesis by simp
qed

section \<open>Property of the frame decoder\<close>

text \<open>
  C3. For every valid frame and every way of cutting its bytes into chunks (empty chunks
  and chunks of one byte included), feeding the chunks in order to a fresh decoder emits
  one message in all, the body of the frame, and leaves the decoder in \<open>BodyComplete\<close>
  with nothing buffered.
\<close>

theorem decoder_reassembles_any_chunking:
  assumes "valid_frame hdrs b" and "concat chunks = frame hdrs b"
  shows "feed_chunks decoder0 chunks = (decoder0\<lparr>phase := BodyComplete\<rparr>, [b])"
  using feed_frame [OF assms(1)] assms(2) by (simp add: feed_chunks_concat)

theorem decoder_reassembles_any_chunking_witness:
  "valid_frame [(''Content-Length'', ''5'')] ''HELLO'' \<and>
   concat [''Content-Le'', ''ngth: 5'' @ [CR, LF, CR, LF] @ ''HELLO''] =
     frame [(''Content-Length'', ''5'')] ''HELLO'' \<and>
   feed_chunks decoder0 [''Content-Le'', ''ngth: 5'' @ [CR, LF, CR, LF] @ ''HELLO''] =
     (decoder0\<lparr>phase := BodyComplete\<rparr>, [''HELLO'']) \<and>
   feed_chunks decoder0
     (map (\<lambda>c. [c]) (frame [(''Content-Length'', ''5'')] ''HELLO'')) =
     (decoder0\<lparr>phase := BodyComplete\<rparr>, [''HELLO''])"
proof -
  have v: "valid_frame [(''Content-Length'', ''5'')] ''HELLO''"
    by code_simp
  have c: "concat [''Content-Le'', ''ngth: 5'' @ [CR, LF, CR, LF] @ ''HELLO''] =
     frame [(''Content-Length'', ''5'')] ''HELLO''"
    by (simp add: frame_def header_line_def)
  have c1: "concat (map (\<lambda>c. [c]) (frame [(''Content-Length'', ''5'')] ''HELLO'')) =
     frame [(''Content-Length'', ''5'')] ''HELLO''"
    by (simp add: frame_def header_line_def)
  from decoder_reassembles_any_chunking [OF v c] decoder_reassembles_any_chunking [OF v c1] v c
  show ?thesis by simp
qed

end
